theory Spec2Isabelle
  imports Complex_Main "HOL-Library.Sublist"
begin

section \<open>Python strings\<close>

text \<open>
  A Python \<open>str\<close> is modelled as a \<open>string\<close> (a list of 8-bit characters) and read as
  ASCII text: \<open>str.strip()\<close> removes the ASCII characters for which \<open>str.isspace()\<close>
  holds (codes 9 to 13, 28 to 31 and 32), and \<open>str.lower()\<close> maps \<open>A\<close>..\<open>Z\<close> to
  \<open>a\<close>..\<open>z\<close>. Characters beyond ASCII are left unchanged by both.
\<close>

definition isspace :: "char \<Rightarrow> bool" where
  "isspace c = (of_char c \<in> {9, 10, 11, 12, 13, 28, 29, 30, 31, 32 :: nat})"

definition strip :: "string \<Rightarrow> string" where
  "strip s = rev (dropWhile isspace (rev (dropWhile isspace s)))"

definition lower_char :: "char \<Rightarrow> char" where
  "lower_char c =
     (let n = (of_char c :: nat) in if 65 \<le> n \<and> n \<le> 90 then char_of (n + 32) else c)"

definition lower :: "string \<Rightarrow> string" where
  "lower s = map lower_char s"

text \<open>The characters that a string literal cannot hold.\<close>

definition quote :: char where
  "quote = CHR 0x22"

definition apostrophe :: char where
  "apostrophe = CHR 0x27"

definition backslash :: char where
  "backslash = CHR 0x5C"

definition backtick :: char where
  "backtick = CHR 0x60"

definition newline :: char where
  "newline = CHR 0x0A"

text \<open>\<open>s.startswith(p)\<close>\<close>

definition startswith :: "string \<Rightarrow> string \<Rightarrow> bool" where
  "startswith s p = (take (length p) s = p)"

text \<open>\<open>sub in s\<close>: a left-to-right search for the first position where \<open>sub\<close> starts.\<close>

fun str_contains :: "string \<Rightarrow> string \<Rightarrow> bool" where
  "str_contains sub [] = (sub = [])"
| "str_contains sub (c # cs) = (startswith (c # cs) sub \<or> str_contains sub cs)"

text \<open>\<open>sep.join(parts)\<close>\<close>

fun join :: "string \<Rightarrow> string list \<Rightarrow> string" where
  "join sep [] = []"
| "join sep [x] = x"
| "join sep (x # y # ys) = x @ sep @ join sep (y # ys)"

text \<open>
  \<open>s.find(c)\<close> and \<open>s.rfind(c)\<close> for a one-character needle: the index of the first
  (last) occurrence, or \<open>-1\<close>.
\<close>

fun find_from :: "nat \<Rightarrow> char \<Rightarrow> string \<Rightarrow> int" where
  "find_from i c [] = -1"
| "find_from i c (x # xs) = (if x = c then int i else find_from (Suc i) c xs)"

definition find :: "string \<Rightarrow> char \<Rightarrow> int" where
  "find s c = find_from 0 c s"

definition rfind :: "string \<Rightarrow> char \<Rightarrow> int" where
  "rfind s c =
     (let r = find_from 0 c (rev s) in if r = -1 then -1 else int (length s) - 1 - r)"

text \<open>
  The slice \<open>s[a:b]\<close> for indices \<open>0 \<le> a\<close> and \<open>0 \<le> b\<close>, the only ones the program
  builds: it is empty when \<open>b \<le> a\<close>.
\<close>

definition slice :: "string \<Rightarrow> int \<Rightarrow> int \<Rightarrow> string" where
  "slice s a b = take (nat b - nat a) (drop (nat a) s)"

text \<open>
  \<open>s.replace(old, new)\<close> for a non-empty \<open>old\<close>: every non-overlapping occurrence,
  found from the left, is replaced.
\<close>

function replace :: "string \<Rightarrow> string \<Rightarrow> string \<Rightarrow> string" where
  "replace [] old new = []"
| "replace (c # cs) old new =
     (if old \<noteq> [] \<and> startswith (c # cs) old
      then new @ replace (drop (length old) (c # cs)) old new
      else c # replace cs old new)"
  by pat_completeness auto
termination
  by (relation "measure (\<lambda>(s, old, new). length s)") auto

section \<open>The safety gate\<close>

definition dangerous_operations :: "string list" where
  "dangerous_operations =
     [''drop'', ''delete'', ''insert'', ''update'', ''alter'', ''create'',
      ''truncate'', ''grant'', ''revoke'', ''exec'', ''execute'']"

text \<open>
  The \<open>for operation in dangerous_operations\<close> loop of \<open>validate_query_safety\<close>: it
  returns \<open>False\<close> at the first operation found in the query, and falls through
  (\<open>None\<close>) when the list is exhausted.
\<close>

fun scan_operations :: "string list \<Rightarrow> string \<Rightarrow> bool option" where
  "scan_operations [] cleaned_query = None"
| "scan_operations (operation # rest) cleaned_query =
     (if str_contains operation cleaned_query then Some False
      else scan_operations rest cleaned_query)"

text \<open>
  \<open>QueryProcessor.validate_query_safety\<close>. Its \<open>except Exception: return False\<close> guards
  string operations that do not raise on a \<open>str\<close>, so the model has no such branch.
\<close>

definition validate_query_safety :: "string \<Rightarrow> bool" where
  "validate_query_safety sql_query =
     (let cleaned_query = lower (strip sql_query) in
      case scan_operations dangerous_operations cleaned_query of
        Some verdict \<Rightarrow> verdict
      | None \<Rightarrow> (if \<not> startswith cleaned_query ''select'' then False else True))"

section \<open>Exceptions, collaborators and the services\<close>

text \<open>
  An exception is its class and its message. The classes are the ones the program raises
  or names in an \<open>except\<close> clause, all of them subclasses of \<open>Exception\<close>;
  \<open>json.JSONDecodeError\<close> and pydantic's \<open>ValidationError\<close> are subclasses of
  \<open>ValueError\<close>. A message is a literal, an f-string that prefixes the text of the
  exception it wraps, or a text composed by a library, which is not modelled.
\<close>

datatype exn_class =
  Exception | ValueError | ConnectionError | JSONDecodeError | ValidationError | TypeError

datatype message = Text string | Prefixed string message | LibraryText

datatype py_exn = PyExn exn_class message

fun issubclass :: "exn_class \<Rightarrow> exn_class \<Rightarrow> bool" where
  "issubclass c Exception = True"
| "issubclass c ValueError = (c = ValueError \<or> c = JSONDecodeError \<or> c = ValidationError)"
| "issubclass c d = (c = d)"

fun isinstance :: "py_exn \<Rightarrow> exn_class \<Rightarrow> bool" where
  "isinstance (PyExn c m) d = issubclass c d"

fun str_of :: "py_exn \<Rightarrow> message" where
  "str_of (PyExn c m) = m"

text \<open>
  The two collaborators are called through their clients. A call either raises or
  returns, and its result may depend on the calls made before it in the run, which are
  recorded as a trace of events in call order.
\<close>

datatype event = GenerateContent string | ExecuteDynamicQuery string | SelectUsers

datatype 'a outcome = Raises py_exn | Returns 'a

text \<open>
  The Supabase client: \<open>rpc('execute_dynamic_query', {'query_text': sql}).execute().data\<close>,
  a list of rows or nothing, and \<open>table('users').select('id').limit(1).execute()\<close>.
  Rows are never inspected by the program, so their type is a parameter.
\<close>

record 'row supabase_client =
  rpc_execute_dynamic_query :: "event list \<Rightarrow> string \<Rightarrow> 'row list option outcome"
  table_users_select :: "event list \<Rightarrow> unit outcome"

text \<open>The Gemini model: the \<open>text\<close> of \<open>generate_content(prompt)\<close>.\<close>

type_synonym gemini_model = "event list \<Rightarrow> string \<Rightarrow> string outcome"

text \<open>
  What a run of the program depends on: the two service attributes
  \<open>database_service.supabase\<close> and \<open>gemini_service.model\<close> (\<open>None\<close> when unset), the
  wall clock \<open>time.time()\<close> read after a given trace, the library serialiser
  \<open>json.dumps(rows, indent=2, ensure_ascii=False, default=str)\<close>, and the text of the
  module constant \<open>DATABASE_SCHEMA\<close>.
\<close>

record 'row services =
  supabase :: "'row supabase_client option"
  model :: "gemini_model option"
  time_time :: "event list \<Rightarrow> real"
  json_dumps :: "'row list \<Rightarrow> string"
  DATABASE_SCHEMA :: string

section \<open>Health status\<close>

text \<open>\<open>DatabaseService.health_check\<close>\<close>

definition database_health_check :: "'row services \<Rightarrow> event list \<Rightarrow> bool \<times> event list" where
  "database_health_check srv tr =
     (case supabase srv of
        None \<Rightarrow> (False, tr)
      | Some client \<Rightarrow>
          (case table_users_select client tr of
             Returns result \<Rightarrow> (True, tr @ [SelectUsers])
           | Raises e \<Rightarrow> (False, tr @ [SelectUsers])))"

text \<open>\<open>GeminiService.health_check\<close>\<close>

definition llm_health_check :: "'row services \<Rightarrow> event list \<Rightarrow> bool \<times> event list" where
  "llm_health_check srv tr =
     (case model srv of
        None \<Rightarrow> (False, tr)
      | Some generate_content \<Rightarrow>
          (let prompt = ''Respond '' @ [apostrophe] @ ''OK'' @ [apostrophe]
                          @ '' if the service works correctly'' in
           case generate_content tr prompt of
             Returns text \<Rightarrow>
               (text \<noteq> [] \<and> str_contains ''ok'' (lower text), tr @ [GenerateContent prompt])
           | Raises e \<Rightarrow> (False, tr @ [GenerateContent prompt])))"

record health_status =
  status :: string
  health_services :: "(string \<times> bool) list"
  health_message :: string

text \<open>\<open>QueryProcessor._get_status_message\<close>\<close>

definition get_status_message :: "string \<Rightarrow> bool \<Rightarrow> bool \<Rightarrow> string" where
  "get_status_message st database_health llm_health =
     (if st = ''healthy'' then ''All services are working correctly''
      else if st = ''degraded'' then
        (let problems = [];
             problems = (if \<not> database_health then problems @ [''Supabase''] else problems);
             problems = (if \<not> llm_health then problems @ [''Gemini''] else problems)
         in ''Problems with: '' @ join '', '' problems)
      else if st = ''unhealthy'' then
        ''Critical services unavailable - check your configuration''
      else ''Unknown system status'')"

text \<open>
  \<open>QueryProcessor.get_health_status\<close>. Both health checks catch every exception
  themselves, so nothing reaches the \<open>except\<close> branch of this function.
\<close>

definition get_health_status :: "'row services \<Rightarrow> event list \<Rightarrow> health_status \<times> event list" where
  "get_health_status srv tr =
     (let (database_health, tr1) = database_health_check srv tr;
          (llm_health, tr2) = llm_health_check srv tr1;
          overall_status = (if database_health \<and> llm_health then ''healthy'' else ''degraded'');
          overall_status =
            (if \<not> database_health \<and> \<not> llm_health then ''unhealthy'' else overall_status);
          message = get_status_message overall_status database_health llm_health
      in (\<lparr>status = overall_status,
           health_services = [(''database'', database_health), (''llm'', llm_health)],
           health_message = message\<rparr>, tr2))"

section \<open>The services-configured check\<close>

text \<open>\<open>QueryProcessor._verify_services_configured\<close>\<close>

definition verify_services_configured :: "'row services \<Rightarrow> py_exn + unit" where
  "verify_services_configured srv =
     (let errors = [];
          errors = (if supabase srv = None
                    then errors @ [''Supabase is not configured''] else errors);
          errors = (if model srv = None
                    then errors @ [''Gemini is not configured''] else errors)
      in if errors \<noteq> []
         then Inl (PyExn ValueError (Text (''Services not configured: '' @ join '', '' errors)))
         else Inr ())"

section \<open>JSON values and \<open>json.loads\<close>\<close>

text \<open>
  The values \<open>json.loads\<close> builds. A Python \<open>float\<close> is a real number or one of the
  three special values that the decoder accepts as \<open>NaN\<close>, \<open>Infinity\<close> and
  \<open>-Infinity\<close>; binary rounding is not modelled. An object keeps its members in the
  order of the text.
\<close>

datatype pyfloat = Finite real | NaN | Infinity | NegInfinity

datatype json =
    JNull | JBool bool | JInt int | JFloat pyfloat | JString string
  | JArray "json list" | JObject "(string \<times> json) list"


text \<open>
  The decoder of the standard library, as a recursive-descent parser: whitespace is
  space, tab, line feed and carriage return; a string has no raw control character and
  only the escapes of the JSON grammar, a \<open>\\u\<close> escape giving the UTF-8 bytes of its
  code point; a number has the JSON syntax, and is an \<open>int\<close> when it has neither a
  fraction nor an exponent.
\<close>

definition json_ws :: "char \<Rightarrow> bool" where
  "json_ws c = (c = CHR '' '' \<or> c = CHR 0x09 \<or> c = CHR 0x0A \<or> c = CHR 0x0D)"

definition skip_ws :: "string \<Rightarrow> string" where
  "skip_ws s = dropWhile json_ws s"

definition is_digit :: "char \<Rightarrow> bool" where
  "is_digit c = (48 \<le> (of_char c :: nat) \<and> (of_char c :: nat) \<le> 57)"

definition digits_value :: "string \<Rightarrow> nat" where
  "digits_value ds = foldl (\<lambda>a c. 10 * a + (of_char c - 48)) 0 ds"

definition hex_digit :: "char \<Rightarrow> nat option" where
  "hex_digit c =
     (let n = (of_char c :: nat) in
      if 48 \<le> n \<and> n \<le> 57 then Some (n - 48)
      else if 65 \<le> n \<and> n \<le> 70 then Some (n - 55)
      else if 97 \<le> n \<and> n \<le> 102 then Some (n - 87)
      else None)"

definition hex4 :: "string \<Rightarrow> nat option" where
  "hex4 s =
     (case map hex_digit s of
        [Some a, Some b, Some c, Some d] \<Rightarrow> Some (((a * 16 + b) * 16 + c) * 16 + d)
      | _ \<Rightarrow> None)"

definition utf8 :: "nat \<Rightarrow> string" where
  "utf8 n =
     (if n < 128 then [char_of n]
      else if n < 2048 then [char_of (192 + n div 64), char_of (128 + n mod 64)]
      else [char_of (224 + n div 4096), char_of (128 + (n div 64) mod 64),
            char_of (128 + n mod 64)])"

definition unescape :: "char \<Rightarrow> char option" where
  "unescape e =
     (if e = quote then Some quote
      else if e = backslash then Some backslash
      else if e = CHR ''/'' then Some (CHR ''/'')
      else if e = CHR ''b'' then Some (CHR 0x08)
      else if e = CHR ''f'' then Some (CHR 0x0C)
      else if e = CHR ''n'' then Some (CHR 0x0A)
      else if e = CHR ''r'' then Some (CHR 0x0D)
      else if e = CHR ''t'' then Some (CHR 0x09)
      else None)"

fun scan_string :: "string \<Rightarrow> (string \<times> string) option" where
  "scan_string [] = None"
| "scan_string (c # cs) =
     (if c = quote then Some ([], cs)
      else if c = backslash then
        (case cs of
           [] \<Rightarrow> None
         | e # rest \<Rightarrow>
             if e = CHR ''u'' then
               (case hex4 (take 4 rest) of
                  None \<Rightarrow> None
                | Some n \<Rightarrow>
                    map_option (\<lambda>(s, r). (utf8 n @ s, r)) (scan_string (drop 4 rest)))
             else
               (case unescape e of
                  None \<Rightarrow> None
                | Some ch \<Rightarrow> map_option (\<lambda>(s, r). (ch # s, r)) (scan_string rest)))
      else if (of_char c :: nat) < 32 then None
      else map_option (\<lambda>(s, r). (c # s, r)) (scan_string cs))"

definition scale10 :: "real \<Rightarrow> int \<Rightarrow> real" where
  "scale10 x e = (if 0 \<le> e then x * 10 ^ nat e else x / 10 ^ nat (- e))"

definition scan_number :: "string \<Rightarrow> (json \<times> string) option" where
  "scan_number s =
     (let (negative, s1) = (case s of c # cs \<Rightarrow> if c = CHR ''-'' then (True, cs) else (False, s)
                                     | [] \<Rightarrow> (False, s));
          int_digits = (case s1 of c # cs \<Rightarrow> if c = CHR ''0'' then [c] else takeWhile is_digit s1
                                 | [] \<Rightarrow> []);
          s2 = drop (length int_digits) s1;
          frac_digits = (case s2 of c # cs \<Rightarrow> if c = CHR ''.'' then takeWhile is_digit cs else []
                                  | [] \<Rightarrow> []);
          s3 = (if frac_digits = [] then s2 else drop (Suc (length frac_digits)) s2);
          (exp_sign, s4) = (case s3 of
              c # cs \<Rightarrow>
                if c = CHR ''e'' \<or> c = CHR ''E'' then
                  (case cs of d # ds \<Rightarrow> if d = CHR ''-'' then (Some True, ds)
                                         else if d = CHR ''+'' then (Some False, ds)
                                         else (Some False, cs)
                            | [] \<Rightarrow> (None, s3))
                else (None, s3)
            | [] \<Rightarrow> (None, s3));
          exp_digits = (if exp_sign = None then [] else takeWhile is_digit s4);
          s5 = (if exp_digits = [] then s3 else drop (length exp_digits) s4)
      in if int_digits = [] then None
         else if frac_digits = [] \<and> exp_digits = [] then
           Some (JInt ((if negative then -1 else 1) * int (digits_value int_digits)), s5)
         else
           Some (JFloat (Finite
             ((if negative then -1 else 1) *
              scale10 (real (digits_value (int_digits @ frac_digits)))
                ((if exp_sign = Some True then -1 else 1) * int (digits_value exp_digits)
                   - int (length frac_digits)))), s5))"

text \<open>
  The three mutually recursive parsers take the text with leading whitespace already
  skipped and return the value and the text left. Their first argument bounds the
  recursion depth; \<open>json_loads\<close> starts them with more than the length of the text,
  which is enough for every text (lemma \<open>json_loads_None_iff\<close> below).
\<close>

fun parse_value :: "nat \<Rightarrow> string \<Rightarrow> (json \<times> string) option"
  and parse_elements :: "nat \<Rightarrow> string \<Rightarrow> (json list \<times> string) option"
  and parse_members :: "nat \<Rightarrow> string \<Rightarrow> ((string \<times> json) list \<times> string) option"
where
  "parse_value 0 s = None"
| "parse_value (Suc n) s =
     (case s of
        [] \<Rightarrow> None
      | c # cs \<Rightarrow>
          if c = quote then map_option (\<lambda>(t, r). (JString t, r)) (scan_string cs)
          else if c = CHR ''{'' then
            (case skip_ws cs of
               [] \<Rightarrow> None
             | d # r \<Rightarrow>
                 if d = CHR ''}'' then Some (JObject [], r)
                 else map_option (\<lambda>(ms, r). (JObject ms, r)) (parse_members n (d # r)))
          else if c = CHR ''['' then
            (case skip_ws cs of
               [] \<Rightarrow> None
             | d # r \<Rightarrow>
                 if d = CHR '']'' then Some (JArray [], r)
                 else map_option (\<lambda>(vs, r). (JArray vs, r)) (parse_elements n (d # r)))
          else if startswith s ''null'' then Some (JNull, drop 4 s)
          else if startswith s ''true'' then Some (JBool True, drop 4 s)
          else if startswith s ''false'' then Some (JBool False, drop 5 s)
          else (case scan_number s of
                  Some r \<Rightarrow> Some r
                | None \<Rightarrow>
                    if startswith s ''NaN'' then Some (JFloat NaN, drop 3 s)
                    else if startswith s ''Infinity'' then Some (JFloat Infinity, drop 8 s)
                    else if startswith s ''-Infinity'' then Some (JFloat NegInfinity, drop 9 s)
                    else None))"
| "parse_elements 0 s = None"
| "parse_elements (Suc n) s =
     (case parse_value n s of
        None \<Rightarrow> None
      | Some (v, r1) \<Rightarrow>
          (case skip_ws r1 of
             [] \<Rightarrow> None
           | c # r2 \<Rightarrow>
               if c = CHR '']'' then Some ([v], r2)
               else if c = CHR '','' then
                 map_option (\<lambda>(vs, r). (v # vs, r)) (parse_elements n (skip_ws r2))
               else None))"
| "parse_members 0 s = None"
| "parse_members (Suc n) s =
     (case s of
        [] \<Rightarrow> None
      | c # cs \<Rightarrow>
          if c \<noteq> quote then None
          else
            (case scan_string cs of
               None \<Rightarrow> None
             | Some (key, r1) \<Rightarrow>
                 (case skip_ws r1 of
                    [] \<Rightarrow> None
                  | c2 # r2 \<Rightarrow>
                      if c2 \<noteq> CHR '':'' then None
                      else
                        (case parse_value n (skip_ws r2) of
                           None \<Rightarrow> None
                         | Some (v, r3) \<Rightarrow>
                             (case skip_ws r3 of
                                [] \<Rightarrow> None
                              | c4 # r4 \<Rightarrow>
                                  if c4 = CHR ''}'' then Some ([(key, v)], r4)
                                  else if c4 = CHR '','' then
                                    map_option (\<lambda>(ms, r). ((key, v) # ms, r))
                                      (parse_members n (skip_ws r4))
                                  else None)))))"

text \<open>\<open>json.loads(s)\<close>: \<open>None\<close> stands for \<open>JSONDecodeError\<close>.\<close>

definition json_loads :: "string \<Rightarrow> json option" where
  "json_loads s =
     (case parse_value (Suc (length s)) (skip_ws s) of
        None \<Rightarrow> None
      | Some (v, rest) \<Rightarrow> if skip_ws rest = [] then Some v else None)"

section \<open>The translator\<close>

definition code_fence :: string where
  "code_fence = [backtick, backtick, backtick]"

text \<open>\<open>GeminiService._clean_json_response\<close>. Its \<open>except\<close> clause re-raises what it caught.\<close>

definition clean_json_response :: "string \<Rightarrow> py_exn + string" where
  "clean_json_response response_text =
     (let start_idx = find response_text (CHR ''{'');
          end_idx = rfind response_text (CHR ''}'') + 1
      in if start_idx = -1 \<or> end_idx = 0
         then Inl (PyExn ValueError (Text ''No valid JSON found in response''))
         else
           (let json_str = slice response_text start_idx end_idx;
                json_str = replace (replace json_str (code_fence @ ''json'') '''') code_fence '''';
                json_str = strip json_str
            in Inr json_str))"

text \<open>
  The pydantic model \<open>SQLQueryResult\<close>: \<open>sql_query: str\<close>, \<open>original_query: str\<close> and
  \<open>confidence: Optional[float] = None\<close>.
\<close>

record SQLQueryResult =
  sql_query :: string
  original_query :: string
  confidence :: "pyfloat option"

text \<open>
  \<open>d.get(k, default)\<close> and \<open>k in d\<close> on the dictionary that \<open>json.loads\<close> builds from an
  object: of two members with the same name the later one is kept.
\<close>

definition dict_get :: "(string \<times> json) list \<Rightarrow> string \<Rightarrow> json \<Rightarrow> json" where
  "dict_get d k default_value = (case map_of (rev d) k of None \<Rightarrow> default_value | Some v \<Rightarrow> v)"

definition dict_has_key :: "(string \<times> 'v) list \<Rightarrow> string \<Rightarrow> bool" where
  "dict_has_key d k = (k \<in> set (map fst d))"

text \<open>
  Building a \<open>SQLQueryResult\<close> validates each argument against the type of its field
  and raises pydantic's \<open>ValidationError\<close> when one does not fit (\<open>None\<close> here). A \<open>str\<close>
  field takes a string only. An \<open>Optional[float]\<close> field takes \<open>None\<close>, a number, a
  boolean (as 1 or 0) or a string that spells a number, read here with the number
  syntax of JSON.
\<close>

definition validate_str :: "json \<Rightarrow> string option" where
  "validate_str v = (case v of JString s \<Rightarrow> Some s | _ \<Rightarrow> None)"

definition validate_optional_float :: "json \<Rightarrow> pyfloat option option" where
  "validate_optional_float v =
     (case v of
        JNull \<Rightarrow> Some None
      | JInt i \<Rightarrow> Some (Some (Finite (of_int i)))
      | JFloat x \<Rightarrow> Some (Some x)
      | JBool b \<Rightarrow> Some (Some (Finite (if b then 1 else 0)))
      | JString s \<Rightarrow>
          (case scan_number (strip s) of
             Some (JInt i, []) \<Rightarrow> Some (Some (Finite (of_int i)))
           | Some (JFloat x, []) \<Rightarrow> Some (Some x)
           | _ \<Rightarrow> None)
      | _ \<Rightarrow> None)"

definition new_SQLQueryResult :: "json \<Rightarrow> json \<Rightarrow> json \<Rightarrow> SQLQueryResult option" where
  "new_SQLQueryResult sql_query_value original_query_value confidence_value =
     (case validate_str sql_query_value of
        None \<Rightarrow> None
      | Some s \<Rightarrow>
          (case validate_str original_query_value of
             None \<Rightarrow> None
           | Some q \<Rightarrow>
               (case validate_optional_float confidence_value of
                  None \<Rightarrow> None
                | Some c \<Rightarrow> Some \<lparr>sql_query = s, original_query = q, confidence = c\<rparr>)))"

text \<open>The f-string \<open>system_prompt\<close> of \<open>human_query_to_sql\<close>.\<close>

definition sql_prompt :: "string \<Rightarrow> string \<Rightarrow> string" where
  "sql_prompt database_schema human_query = join [newline]
     ['''',
      ''You are an expert in PostgreSQL databases for an e-commerce system. Your task is to understand customer queries given in natural format and transform them into SQL that can answer them.'',
      '''',
      ''IMPORTANT RULES:'',
      ''- Return ONLY a valid JSON object'',
      ''- Do not include additional text before or after the JSON'',
      ''- Do NOT include semicolons at the end of SQL statements'',
      ''- Use ONLY the tables and columns listed below'',
      ''- Generate valid and efficient SQL for PostgreSQL'',
      ''- Use proper table aliases when joining tables'',
      ''- For product recommendations, focus on products table with relevant filters'',
      ''- For user queries, use the users table'',
      ''- For order queries, join orders with order_items and products'',
      ''- categories (Accessories, Smartphones, Laptops, Audio)'',
      '''',
      ''DATABASE SCHEMA:'',
      database_schema,
      '''',
      ''REQUIRED RESPONSE FORMAT:'',
      ''{'',
      ''    '' @ [quote] @ ''sql_query'' @ [quote] @ '': '' @ [quote]
        @ ''SELECT * FROM users WHERE role = '' @ [apostrophe] @ ''admin'' @ [apostrophe]
        @ '';'' @ [quote] @ '','',
      ''    '' @ [quote] @ ''original_query'' @ [quote] @ '': '' @ [quote]
        @ ''user'' @ [apostrophe] @ ''s original query'' @ [quote] @ '','',
      ''    '' @ [quote] @ ''confidence'' @ [quote] @ '': 0.95'',
      ''}'',
      '''',
      ''USER QUERY: '' @ human_query,
      ''            '']"

text \<open>
  The statements of \<open>human_query_to_sql\<close> that follow the call of the model, inside its
  \<open>try\<close> block. The cleaned text starts with an opening brace whenever it parses, so
  the parsed value is a dictionary; any other value would raise at the membership test
  or at \<open>get\<close>.
\<close>

definition sql_result_of_response :: "string \<Rightarrow> string \<Rightarrow> py_exn + SQLQueryResult" where
  "sql_result_of_response text human_query =
     (if text = [] then Inl (PyExn Exception (Text ''Gemini did not generate a response''))
      else
        (case clean_json_response text of
           Inl e \<Rightarrow> Inl e
         | Inr cleaned_response \<Rightarrow>
             (case json_loads cleaned_response of
                None \<Rightarrow> Inl (PyExn JSONDecodeError LibraryText)
              | Some (JObject result_dict) \<Rightarrow>
                  if \<not> dict_has_key result_dict ''sql_query''
                  then Inl (PyExn ValueError (Text
                         (''Respuesta de Gemini no contiene '' @ [apostrophe] @ ''sql_query''
                            @ [apostrophe])))
                  else
                    (case new_SQLQueryResult
                            (dict_get result_dict ''sql_query'' (JString ''''))
                            (dict_get result_dict ''original_query'' (JString human_query))
                            (dict_get result_dict ''confidence'' (JFloat (Finite 0.5))) of
                       None \<Rightarrow> Inl (PyExn ValidationError LibraryText)
                     | Some sql_result \<Rightarrow> Inr sql_result)
              | Some other \<Rightarrow> Inl (PyExn TypeError LibraryText))))"

text \<open>
  The two \<open>except\<close> clauses of \<open>human_query_to_sql\<close>, in their order: each raises a
  plain \<open>Exception\<close> whose message wraps the text of the one caught.
\<close>

definition human_query_to_sql_except :: "py_exn \<Rightarrow> py_exn" where
  "human_query_to_sql_except e =
     (if isinstance e JSONDecodeError
      then PyExn Exception (Prefixed ''Error in Gemini response format: '' (str_of e))
      else if isinstance e Exception
      then PyExn Exception (Prefixed ''Error processing query with Gemini: '' (str_of e))
      else e)"

text \<open>
  \<open>GeminiService.human_query_to_sql\<close>. The check of \<open>self.model\<close> is outside the
  \<open>try\<close> block, so its \<open>ConnectionError\<close> is raised as it is.
\<close>

definition human_query_to_sql ::
  "'row services \<Rightarrow> event list \<Rightarrow> string \<Rightarrow> string \<Rightarrow> (py_exn + SQLQueryResult) \<times> event list"
where
  "human_query_to_sql srv tr human_query database_schema =
     (case model srv of
        None \<Rightarrow> (Inl (PyExn ConnectionError (Text ''Gemini client not initialized'')), tr)
      | Some generate_content \<Rightarrow>
          (let system_prompt = sql_prompt database_schema human_query;
               tr1 = tr @ [GenerateContent system_prompt];
               attempt = (case generate_content tr system_prompt of
                            Raises e \<Rightarrow> Inl e
                          | Returns text \<Rightarrow> sql_result_of_response text human_query)
           in case attempt of
                Inr sql_result \<Rightarrow> (Inr sql_result, tr1)
              | Inl e \<Rightarrow> (Inl (human_query_to_sql_except e), tr1)))"

section \<open>The executor\<close>

text \<open>\<open>DatabaseService.execute_query\<close>\<close>

definition execute_query ::
  "'row services \<Rightarrow> event list \<Rightarrow> string \<Rightarrow> (py_exn + 'row list) \<times> event list"
where
  "execute_query srv tr sql =
     (case supabase srv of
        None \<Rightarrow> (Inl (PyExn ConnectionError (Text ''Supabase client not initialized'')), tr)
      | Some client \<Rightarrow>
          (case rpc_execute_dynamic_query client tr sql of
             Returns data \<Rightarrow>
               (Inr (case data of None \<Rightarrow> [] | Some rows \<Rightarrow> if rows \<noteq> [] then rows else []),
                tr @ [ExecuteDynamicQuery sql])
           | Raises e \<Rightarrow>
               (Inl (PyExn Exception (Prefixed ''Error executing query: '' (str_of e))),
                tr @ [ExecuteDynamicQuery sql])))"

section \<open>The answer composer\<close>

text \<open>
  The f-string \<open>system_prompt\<close> of \<open>build_answer\<close>; \<open>data\<close> is the text that
  \<open>json.dumps\<close> made of the rows.
\<close>

definition answer_prompt :: "string \<Rightarrow> string \<Rightarrow> string" where
  "answer_prompt human_query data = join [newline]
     ['''',
      ''You are an ecommerce assistant that generates natural language responses based on your ecommerce stock.'',
      '''',
      ''INSTRUCTIONS:'',
      ''- Respond in English naturally and conversationally'',
      ''- Be concise but informative'',
      ''- If there'' @ [apostrophe] @ ''s no data, explain it in a friendly way (No stock available)'',
      ''- Include relevant information from the data (names, prices, quantities, etc.)'',
      ''- Use a professional but approachable tone'',
      ''- For products, mention names, prices, and availability when relevant'',
      ''- For users, mention general information without sensitive data'',
      ''- For orders, include totals and statuses'',
      ''-DOES NOT use special formatting like *, **, etc.'',
      '''',
      ''ORIGINAL QUESTION: '' @ human_query,
      '''',
      ''DATABASE DATA:'',
      data,
      '''',
      ''Generate a natural and helpful response based on this data:'',
      ''            '']"

text \<open>The \<open>except\<close> clause of \<open>build_answer\<close>.\<close>

definition build_answer_except :: "py_exn \<Rightarrow> py_exn" where
  "build_answer_except e =
     (if isinstance e Exception
      then PyExn Exception (Prefixed ''Error generating natural response: '' (str_of e))
      else e)"

text \<open>\<open>GeminiService.build_answer\<close>\<close>

definition build_answer ::
  "'row services \<Rightarrow> event list \<Rightarrow> 'row list \<Rightarrow> string \<Rightarrow> (py_exn + string) \<times> event list"
where
  "build_answer srv tr query_result human_query =
     (case model srv of
        None \<Rightarrow> (Inl (PyExn ConnectionError (Text ''Gemini client not initialized'')), tr)
      | Some generate_content \<Rightarrow>
          (let limited_result =
                 (if length query_result > 10 then take 10 query_result else query_result);
               system_prompt = answer_prompt human_query (json_dumps srv limited_result);
               tr1 = tr @ [GenerateContent system_prompt];
               attempt = (case generate_content tr system_prompt of
                            Raises e \<Rightarrow> Inl e
                          | Returns text \<Rightarrow>
                              if text = []
                              then Inl (PyExn Exception (Text
                                     ''Gemini did not generate a response for build_answer''))
                              else Inr (strip text))
           in case attempt of
                Inr answer \<Rightarrow> (Inr answer, tr1)
              | Inl e \<Rightarrow> (Inl (build_answer_except e), tr1)))"

section \<open>The pipeline\<close>

text \<open>
  The dictionaries that the pipeline returns, with their items in field order. A value
  is a string, a message, \<open>None\<close>, a float or a \<open>datetime\<close>, which is a reading of the
  same wall clock.
\<close>

datatype pyval = Str string | Msg message | NoneValue | Float real | Datetime real

type_synonym pydict = "(string \<times> pyval) list"

text \<open>\<open>HumanQueryResponse(answer=..., sql_query=..., execution_time=...).dict()\<close>\<close>

definition HumanQueryResponse_dict :: "string \<Rightarrow> string \<Rightarrow> real \<Rightarrow> pydict" where
  "HumanQueryResponse_dict answer sql execution_time =
     [(''answer'', Str answer), (''sql_query'', Str sql), (''execution_time'', Float execution_time)]"

text \<open>
  \<open>QueryProcessor._create_error_response\<close>: \<open>ErrorResponse(error=..., details=...).dict()\<close>,
  whose \<open>timestamp\<close> field defaults to \<open>datetime.now()\<close>.
\<close>

definition create_error_response ::
  "'row services \<Rightarrow> event list \<Rightarrow> message \<Rightarrow> string option \<Rightarrow> pydict" where
  "create_error_response srv tr error_message details =
     [(''error'', Msg error_message),
      (''details'', (case details of None \<Rightarrow> NoneValue | Some d \<Rightarrow> Str d)),
      (''timestamp'', Datetime (time_time srv tr))]"

text \<open>
  The \<open>try\<close> block of \<open>QueryProcessor.process_human_query\<close>. \<open>start_time\<close> was read
  before it.
\<close>

definition process_try ::
  "'row services \<Rightarrow> event list \<Rightarrow> string \<Rightarrow> real \<Rightarrow> (py_exn + pydict) \<times> event list"
where
  "process_try srv tr human_query start_time =
     (case verify_services_configured srv of
        Inl e \<Rightarrow> (Inl e, tr)
      | Inr ok \<Rightarrow>
          (let database_schema = DATABASE_SCHEMA srv in
           case human_query_to_sql srv tr human_query database_schema of
             (Inl e, tr1) \<Rightarrow> (Inl e, tr1)
           | (Inr sql_result, tr1) \<Rightarrow>
               if \<not> validate_query_safety (sql_query sql_result)
               then (Inr (create_error_response srv tr1
                            (Text ''SQL query not allowed for security reasons'')
                            (Some ''Only SELECT queries are allowed'')), tr1)
               else
                 (case execute_query srv tr1 (sql_query sql_result) of
                    (Inl e, tr2) \<Rightarrow> (Inl e, tr2)
                  | (Inr query_result, tr2) \<Rightarrow>
                      (case build_answer srv tr2 query_result human_query of
                         (Inl e, tr3) \<Rightarrow> (Inl e, tr3)
                       | (Inr natural_answer, tr3) \<Rightarrow>
                           (let execution_time = time_time srv tr3 - start_time
                            in (Inr (HumanQueryResponse_dict natural_answer
                                       (sql_query sql_result) execution_time), tr3))))))"

text \<open>
  The three \<open>except\<close> clauses of \<open>process_human_query\<close>, in their order. An exception
  that none of them catches propagates to the caller.
\<close>

definition process_except :: "'row services \<Rightarrow> event list \<Rightarrow> py_exn \<Rightarrow> py_exn + pydict" where
  "process_except srv tr e =
     (if isinstance e ValueError
      then Inr (create_error_response srv tr (Text ''Service not configured correctly'')
                  (Some ''Verify your Supabase and Gemini configuration in the .env file''))
      else if isinstance e ConnectionError
      then Inr (create_error_response srv tr (Text ''Connection error with services'')
                  (Some ''Verify your internet connectivity and credentials''))
      else if isinstance e Exception
      then Inr (create_error_response srv tr
                  (Prefixed ''Error processing query: '' (str_of e)) None)
      else Inl e)"

text \<open>\<open>QueryProcessor.process_human_query\<close>\<close>

definition process_human_query ::
  "'row services \<Rightarrow> event list \<Rightarrow> string \<Rightarrow> (py_exn + pydict) \<times> event list" where
  "process_human_query srv tr human_query =
     (let start_time = time_time srv tr in
      case process_try srv tr human_query start_time of
        (Inr response, tr1) \<Rightarrow> (Inr response, tr1)
      | (Inl e, tr1) \<Rightarrow> (process_except srv tr1 e, tr1))"

section \<open>The HTTP query endpoint\<close>

text \<open>
  What the handler of \<open>POST /api/v1/query\<close> produces: the dictionary of a 200 response,
  or an \<open>HTTPException\<close> with its status code and detail, which the framework sends as
  a response with that status.
\<close>

datatype http_result = Response pydict | HTTPException nat pyval

text \<open>\<open>d[k]\<close> for a key that is present in \<open>d\<close>.\<close>

definition dict_item :: "pydict \<Rightarrow> string \<Rightarrow> pyval" where
  "dict_item d k = (case map_of d k of Some v \<Rightarrow> v | None \<Rightarrow> NoneValue)"

text \<open>
  The route \<open>process_human_query\<close>. Its \<open>except HTTPException: raise\<close> passes on the
  two exceptions it raises itself; its \<open>except Exception\<close> turns an exception that
  the pipeline propagated into a 500.
\<close>

definition route_process_human_query ::
  "'row services \<Rightarrow> event list \<Rightarrow> string \<Rightarrow> http_result \<times> event list" where
  "route_process_human_query srv tr human_query =
     (if strip human_query = [] then (HTTPException 400 (Str ''Query cannot be empty''), tr)
      else
        (case process_human_query srv tr human_query of
           (Inl e, tr1) \<Rightarrow> (HTTPException 500 (Str ''Internal server error''), tr1)
         | (Inr result, tr1) \<Rightarrow>
             if dict_has_key result ''error''
             then (HTTPException 400 (dict_item result ''error''), tr1)
             else (Response result, tr1)))"

section \<open>Stub collaborators\<close>

text \<open>
  Deterministic collaborators for running the model on concrete inputs: a model that
  answers the first call of a run with one text and every later call with another, a
  database client that returns fixed rows, and a clock that advances by one second at
  every collaborator call. The rows are natural numbers, serialised one per line.
\<close>

definition scripted_model :: "string \<Rightarrow> string \<Rightarrow> gemini_model" where
  "scripted_model first_reply later_reply tr prompt =
     Returns (if tr = [] then first_reply else later_reply)"

definition fixed_rows_client :: "'row list \<Rightarrow> 'row supabase_client" where
  "fixed_rows_client rows =
     \<lparr>rpc_execute_dynamic_query = (\<lambda>tr sql. Returns (Some rows)),
      table_users_select = (\<lambda>tr. Returns ())\<rparr>"

definition stub_services :: "string \<Rightarrow> string \<Rightarrow> nat list \<Rightarrow> nat services" where
  "stub_services first_reply later_reply rows =
     \<lparr>supabase = Some (fixed_rows_client rows),
      model = Some (scripted_model first_reply later_reply),
      time_time = (\<lambda>tr. real (length tr)),
      json_dumps = (\<lambda>rows. join [newline] (map (\<lambda>r. replicate r (CHR ''#'')) rows)),
      DATABASE_SCHEMA = ''CREATE TABLE public.users (id UUID PRIMARY KEY)''\<rparr>"

text \<open>
  The reply \<open>Sure! three backticks and json\<close>, a line feed, \<open>{"sql_query":"SELECT * FROM users"}\<close>, a line
  feed and the closing fence.
\<close>

definition fenced_reply :: string where
  "fenced_reply = ''Sure! '' @ code_fence @ ''json'' @ [newline] @ ''{'' @ [quote] @ ''sql_query''
     @ [quote] @ '':'' @ [quote] @ ''SELECT * FROM users'' @ [quote] @ ''}'' @ [newline] @ code_fence"

text \<open>The reply \<open>{"sql_query": "sql"}\<close> with the given statement, and the reply \<open>{"sql_query": null}\<close>.\<close>

definition sql_reply :: "string \<Rightarrow> string" where
  "sql_reply sql = ''{'' @ [quote] @ ''sql_query'' @ [quote] @ '': '' @ [quote] @ sql @ [quote] @ ''}''"

definition null_reply :: string where
  "null_reply = ''{'' @ [quote] @ ''sql_query'' @ [quote] @ '': null}''"

text \<open>The same services with a wall clock that is set back by one second at every call.\<close>

definition backwards_clock :: "nat services \<Rightarrow> nat services" where
  "backwards_clock srv = srv\<lparr>time_time := (\<lambda>tr. 100 - real (length tr))\<rparr>"

text \<open>
  A run completes when every stage returns and the gate accepts; otherwise it has
  failed.
\<close>

definition run_completes :: "'row services \<Rightarrow> event list \<Rightarrow> string \<Rightarrow> bool" where
  "run_completes srv tr human_query =
     (case verify_services_configured srv of
        Inl e \<Rightarrow> False
      | Inr ok \<Rightarrow>
          (case human_query_to_sql srv tr human_query (DATABASE_SCHEMA srv) of
             (Inl e, tr1) \<Rightarrow> False
           | (Inr sql_result, tr1) \<Rightarrow>
               validate_query_safety (sql_query sql_result) \<and>
               (case execute_query srv tr1 (sql_query sql_result) of
                  (Inl e, tr2) \<Rightarrow> False
                | (Inr query_result, tr2) \<Rightarrow>
                    (case build_answer srv tr2 query_result human_query of
                       (Inl e, tr3) \<Rightarrow> False
                     | (Inr natural_answer, tr3) \<Rightarrow> True))))"

section \<open>Properties of the string operations\<close>

lemma startswith_iff_prefix: "startswith s p \<longleftrightarrow> prefix p s"
proof
  assume "startswith s p"
  then have "take (length p) s = p" by (simp add: startswith_def)
  then show "prefix p s" by (metis take_is_prefix)
next
  assume "prefix p s"
  then show "startswith s p" by (auto simp: startswith_def prefix_def)
qed

lemma str_contains_iff_sublist: "str_contains sub s \<longleftrightarrow> sublist sub s"
  by (induction s) (simp_all add: startswith_iff_prefix sublist_Cons_right)

lemma scan_operations_None:
  "scan_operations ops q = None \<longleftrightarrow> (\<forall>operation \<in> set ops. \<not> str_contains operation q)"
  by (induction ops) simp_all

lemma scan_operations_Some:
  "scan_operations ops q = Some v \<Longrightarrow> v = False"
  by (induction ops) (simp_all split: if_splits)

section \<open>The safety gate accepts exactly the clean SELECT statements\<close>

text \<open>
  Claim C1. For every string \<open>s\<close>, \<open>validate_query_safety\<close> answers safe if and only if
  the trimmed, lowercased form of \<open>s\<close> starts with \<open>select\<close> and has none of the eleven
  listed words as a substring, wherever in the text (also inside a longer word); in
  every other case it answers unsafe.
\<close>

theorem validate_query_safety_iff:
  "validate_query_safety s \<longleftrightarrow>
     prefix ''select'' (lower (strip s)) \<and>
     (\<forall>operation \<in> {''drop'', ''delete'', ''insert'', ''update'', ''alter'', ''create'',
                      ''truncate'', ''grant'', ''revoke'', ''exec'', ''execute''}.
        \<not> sublist operation (lower (strip s)))"
proof -
  let ?q = "lower (strip s)"
  have ops: "set dangerous_operations =
      {''drop'', ''delete'', ''insert'', ''update'', ''alter'', ''create'',
       ''truncate'', ''grant'', ''revoke'', ''exec'', ''execute''}"
    by (simp add: dangerous_operations_def)
  show ?thesis
  proof (cases "scan_operations dangerous_operations ?q")
    case None
    then have "\<forall>operation \<in> set dangerous_operations. \<not> sublist operation ?q"
      by (simp add: scan_operations_None str_contains_iff_sublist)
    with None show ?thesis
      unfolding ops by (simp add: validate_query_safety_def startswith_iff_prefix)
  next
    case (Some v)
    then have v: "v = False" by (rule scan_operations_Some)
    from Some have "\<not> (\<forall>operation \<in> set dangerous_operations. \<not> str_contains operation ?q)"
      using scan_operations_None [of dangerous_operations ?q] by simp
    then have "\<not> (\<forall>operation \<in> set dangerous_operations. \<not> sublist operation ?q)"
      by (simp add: str_contains_iff_sublist)
    with Some v show ?thesis
      unfolding ops by (simp add: validate_query_safety_def)
  qed
qed

theorem validate_query_safety_iff_witness:
  "validate_query_safety ''  SELECT name, price FROM products  ''
   \<and> prefix ''select'' (lower (strip ''  SELECT name, price FROM products  ''))
   \<and> \<not> sublist ''create'' (lower (strip ''  SELECT name, price FROM products  ''))
   \<and> \<not> validate_query_safety ''select * from updates''
   \<and> \<not> validate_query_safety ''SELECT created_at FROM orders''
   \<and> \<not> validate_query_safety ''DROP TABLE users''
   \<and> \<not> validate_query_safety ''with t as (select 1) select * from t''"
proof -
  have safe: "validate_query_safety ''  SELECT name, price FROM products  ''"
    by code_simp
  have "\<not> validate_query_safety ''select * from updates''"
    and "\<not> validate_query_safety ''SELECT created_at FROM orders''"
    and "\<not> validate_query_safety ''DROP TABLE users''"
    and "\<not> validate_query_safety ''with t as (select 1) select * from t''"
    by code_simp+
  with safe show ?thesis
    using validate_query_safety_iff [of "''  SELECT name, price FROM products  ''"]
    by simp
qed

section \<open>Health status\<close>

text \<open>
  Claim C8. Whatever the two health checks return, \<open>get_health_status\<close> reports
  \<open>healthy\<close> exactly when both are true, \<open>unhealthy\<close> exactly when both are false and
  \<open>degraded\<close> exactly when one is true and the other false, and its services map holds
  the two booleans unchanged.
\<close>

theorem get_health_status_cases:
  fixes srv :: "'row services"
  assumes "database_health_check srv tr = (database_health, tr1)"
    and "llm_health_check srv tr1 = (llm_health, tr2)"
  shows "(status (fst (get_health_status srv tr)) = ''healthy''
            \<longleftrightarrow> database_health \<and> llm_health)
       \<and> (status (fst (get_health_status srv tr)) = ''unhealthy''
            \<longleftrightarrow> \<not> database_health \<and> \<not> llm_health)
       \<and> (status (fst (get_health_status srv tr)) = ''degraded''
            \<longleftrightarrow> database_health \<noteq> llm_health)
       \<and> health_services (fst (get_health_status srv tr))
            = [(''database'', database_health), (''llm'', llm_health)]"
  using assms by (auto simp: get_health_status_def Let_def)

text \<open>
  An instance: the database answers and no model is set, so the status is \<open>degraded\<close>.
\<close>

theorem get_health_status_cases_witness:
  "status (fst (get_health_status ((stub_services '''' ''OK'' [])\<lparr>model := None\<rparr>) [])) = ''degraded''
   \<and> health_services (fst (get_health_status ((stub_services '''' ''OK'' [])\<lparr>model := None\<rparr>) []))
       = [(''database'', True), (''llm'', False)]"
proof -
  let ?srv = "(stub_services '''' ''OK'' [])\<lparr>model := None\<rparr>"
  have db: "database_health_check ?srv [] = (True, [SelectUsers])"
    by (simp add: database_health_check_def stub_services_def fixed_rows_client_def)
  have llm: "llm_health_check ?srv [SelectUsers] = (False, [SelectUsers])"
    by (simp add: llm_health_check_def stub_services_def)
  show ?thesis
    using get_health_status_cases [OF db llm] by simp
qed

section \<open>The services-configured check\<close>

text \<open>
  Claim C9. The services-configured check raises its configuration error exactly when
  the database client or the LLM model is unset, and the message of the error names
  every unset dependency: both when both are unset.
\<close>

theorem verify_services_configured_aggregates:
  fixes srv :: "'row services"
  shows "(isl (verify_services_configured srv)
            \<longleftrightarrow> supabase srv = None \<or> model srv = None)
       \<and> (supabase srv = None \<and> model srv = None \<longrightarrow>
            verify_services_configured srv = Inl (PyExn ValueError (Text
              ''Services not configured: Supabase is not configured, Gemini is not configured'')))
       \<and> (supabase srv = None \<and> model srv \<noteq> None \<longrightarrow>
            verify_services_configured srv = Inl (PyExn ValueError (Text
              ''Services not configured: Supabase is not configured'')))
       \<and> (supabase srv \<noteq> None \<and> model srv = None \<longrightarrow>
            verify_services_configured srv = Inl (PyExn ValueError (Text
              ''Services not configured: Gemini is not configured'')))
       \<and> (supabase srv \<noteq> None \<and> model srv \<noteq> None \<longrightarrow>
            verify_services_configured srv = Inr ())"
  by (simp add: verify_services_configured_def Let_def)

text \<open>An instance: with neither dependency set, the message names both.\<close>

theorem verify_services_configured_aggregates_witness:
  "verify_services_configured ((stub_services '''' '''' [])\<lparr>supabase := None, model := None\<rparr>)
     = Inl (PyExn ValueError (Text
         ''Services not configured: Supabase is not configured, Gemini is not configured''))"
  using verify_services_configured_aggregates
    [of "(stub_services '''' '''' [])\<lparr>supabase := None, model := None\<rparr>"]
  by simp

section \<open>Traces and results of the stages\<close>

lemma isinstance_Exception: "isinstance e Exception"
  by (cases e) simp

lemma verify_services_configured_Inr:
  "verify_services_configured srv = Inr u \<longleftrightarrow> supabase srv \<noteq> None \<and> model srv \<noteq> None"
  by (simp add: verify_services_configured_def Let_def)

lemma human_query_to_sql_trace:
  "model srv = Some g \<Longrightarrow>
   snd (human_query_to_sql srv tr q s) = tr @ [GenerateContent (sql_prompt s q)]"
  by (simp add: human_query_to_sql_def Let_def split: sum.splits)

lemma execute_query_trace:
  "supabase srv = Some client \<Longrightarrow>
   snd (execute_query srv tr sql) = tr @ [ExecuteDynamicQuery sql]"
  by (simp add: execute_query_def split: outcome.splits)

lemma build_answer_trace:
  "model srv = Some g \<Longrightarrow>
   snd (build_answer srv tr rows q) =
     tr @ [GenerateContent (answer_prompt q (json_dumps srv (take 10 rows)))]"
  by (simp add: build_answer_def Let_def split: sum.splits)

lemma dict_has_key_keys: "map fst d = ks \<Longrightarrow> dict_has_key d k \<longleftrightarrow> k \<in> set ks"
  by (metis dict_has_key_def)

lemma process_except_returns: "\<exists>d. process_except srv tr e = Inr d \<and> map fst d = [''error'', ''details'', ''timestamp'']"
  by (simp add: process_except_def isinstance_Exception create_error_response_def)

section \<open>The recursion bound of the decoder\<close>

text \<open>
  Every parser consumes at least one character when it succeeds, and a successful parse
  needs no more fuel than the number of characters it consumes. So the bound that
  \<open>json_loads\<close> starts with is never the reason for a rejection: \<open>json_loads\<close>
  rejects a text exactly when no bound at all makes the parse succeed.
\<close>

lemma skip_ws_length: "length (skip_ws s) \<le> length s"
  by (simp add: skip_ws_def length_dropWhile_le)

lemma skip_ws_Cons_length: "skip_ws s = d # r \<Longrightarrow> length r < length s"
  using skip_ws_length [of s] by simp

lemma scan_string_rest: "scan_string s = Some (t, r) \<Longrightarrow> length r < length s"
  by (induction s arbitrary: t r rule: scan_string.induct)
    (fastforce split: if_splits list.splits option.splits)+

lemma scan_number_rest:
  assumes "scan_number s = Some (v, r)"
  shows "length r < length s"
proof -
  define s1 where "s1 = snd (case s of c # cs \<Rightarrow> if c = CHR ''-'' then (True, cs) else (False, s)
                                     | [] \<Rightarrow> (False, s))"
  define int_digits where "int_digits =
    (case s1 of c # cs \<Rightarrow> if c = CHR ''0'' then [c] else takeWhile is_digit s1 | [] \<Rightarrow> [])"
  define s2 where "s2 = drop (length int_digits) s1"
  define frac_digits where "frac_digits =
    (case s2 of c # cs \<Rightarrow> if c = CHR ''.'' then takeWhile is_digit cs else [] | [] \<Rightarrow> [])"
  define s3 where "s3 = (if frac_digits = [] then s2 else drop (Suc (length frac_digits)) s2)"
  define es where "es = (case s3 of
              c # cs \<Rightarrow>
                if c = CHR ''e'' \<or> c = CHR ''E'' then
                  (case cs of d # ds \<Rightarrow> if d = CHR ''-'' then (Some True, ds)
                                         else if d = CHR ''+'' then (Some False, ds)
                                         else (Some False, cs)
                            | [] \<Rightarrow> (None, s3))
                else (None, s3)
            | [] \<Rightarrow> (None, s3))"
  define exp_digits where "exp_digits = (if fst es = None then [] else takeWhile is_digit (snd es))"
  define s5 where "s5 = (if exp_digits = [] then s3 else drop (length exp_digits) (snd es))"
  define negative where "negative = fst (case s of c # cs \<Rightarrow> if c = CHR ''-'' then (True, cs) else (False, s)
                                     | [] \<Rightarrow> (False, s))"
  have "scan_number s =
      (if int_digits = [] then None
       else if frac_digits = [] \<and> exp_digits = [] then
         Some (JInt ((if negative then -1 else 1) * int (digits_value int_digits)), s5)
       else
         Some (JFloat (Finite
           ((if negative then -1 else 1) *
            scale10 (real (digits_value (int_digits @ frac_digits)))
              ((if fst es = Some True then -1 else 1) * int (digits_value exp_digits)
                 - int (length frac_digits)))), s5))"
    unfolding scan_number_def Let_def case_prod_beta
      s5_def exp_digits_def es_def s3_def frac_digits_def s2_def int_digits_def s1_def
      negative_def
    by (rule refl)
  with assms have result: "int_digits \<noteq> [] \<and> r = s5"
    by (simp split: if_splits)
  have "length s1 \<le> length s"
    by (cases s) (simp_all add: s1_def)
  moreover have "length int_digits \<le> length s1"
    by (cases s1) (simp_all add: int_digits_def length_takeWhile_le)
  moreover have "length s2 = length s1 - length int_digits"
    by (simp add: s2_def)
  moreover have "length s3 \<le> length s2"
    by (simp add: s3_def)
  moreover have "length (snd es) \<le> length s3"
    by (cases s3) (simp_all add: es_def split: list.splits)
  moreover have "length s5 \<le> length s3"
    using \<open>length (snd es) \<le> length s3\<close> by (auto simp: s5_def)
  ultimately show ?thesis
    using result by (cases int_digits) auto
qed

lemma parse_value_string:
  "parse_value (Suc n) (quote # cs) = map_option (\<lambda>(t, r). (JString t, r)) (scan_string cs)"
  by simp

lemma parse_value_object:
  "parse_value (Suc n) (CHR ''{'' # cs) =
     (case skip_ws cs of
        [] \<Rightarrow> None
      | d # r \<Rightarrow>
          if d = CHR ''}'' then Some (JObject [], r)
          else map_option (\<lambda>(ms, r). (JObject ms, r)) (parse_members n (d # r)))"
  by (simp add: quote_def)

lemma parse_value_array:
  "parse_value (Suc n) (CHR ''['' # cs) =
     (case skip_ws cs of
        [] \<Rightarrow> None
      | d # r \<Rightarrow>
          if d = CHR '']'' then Some (JArray [], r)
          else map_option (\<lambda>(vs, r). (JArray vs, r)) (parse_elements n (d # r)))"
  by (simp add: quote_def)

lemma parse_value_scalar:
  assumes "c \<noteq> quote" and "c \<noteq> CHR ''{''" and "c \<noteq> CHR ''[''"
  shows "parse_value (Suc n) (c # cs) = parse_value (Suc m) (c # cs)"
  using assms by simp

lemma parse_value_scalar_rest:
  assumes "c \<noteq> quote" and "c \<noteq> CHR ''{''" and "c \<noteq> CHR ''[''"
    and "parse_value (Suc n) (c # cs) = Some (v, r)"
  shows "length r < length (c # cs)"
  using assms
  by (auto simp: startswith_def split: if_splits option.splits dest: scan_number_rest)

lemma parse_fuel:
  "(\<forall>s v r. parse_value N s = Some (v, r) \<longrightarrow>
      length r < length s
      \<and> (\<forall>n. length s - length r \<le> n \<longrightarrow> parse_value n s = Some (v, r)))
 \<and> (\<forall>s vs r. parse_elements N s = Some (vs, r) \<longrightarrow>
      length r < length s
      \<and> (\<forall>n. length s - length r \<le> n \<longrightarrow> parse_elements n s = Some (vs, r)))
 \<and> (\<forall>s ms r. parse_members N s = Some (ms, r) \<longrightarrow>
      length r < length s
      \<and> (\<forall>n. length s - length r \<le> n \<longrightarrow> parse_members n s = Some (ms, r)))"
proof (induction N)
  case 0
  show ?case
    by simp
next
  case (Suc N)
  then have value_rest: "\<And>s v r. parse_value N s = Some (v, r) \<Longrightarrow> length r < length s"
    and value_fuel: "\<And>s v r n. parse_value N s = Some (v, r) \<Longrightarrow> length s - length r \<le> n
          \<Longrightarrow> parse_value n s = Some (v, r)"
    and elements_rest: "\<And>s vs r. parse_elements N s = Some (vs, r) \<Longrightarrow> length r < length s"
    and elements_fuel: "\<And>s vs r n. parse_elements N s = Some (vs, r)
          \<Longrightarrow> length s - length r \<le> n \<Longrightarrow> parse_elements n s = Some (vs, r)"
    and members_rest: "\<And>s ms r. parse_members N s = Some (ms, r) \<Longrightarrow> length r < length s"
    and members_fuel: "\<And>s ms r n. parse_members N s = Some (ms, r)
          \<Longrightarrow> length s - length r \<le> n \<Longrightarrow> parse_members n s = Some (ms, r)"
    by blast+
  have value_case: "length r < length s
      \<and> (\<forall>n. length s - length r \<le> n \<longrightarrow> parse_value n s = Some (v, r))"
    if parsed: "parse_value (Suc N) s = Some (v, r)" for s v r
  proof (cases s)
    case Nil
    with parsed show ?thesis
      by simp
  next
    case (Cons c cs)
    consider (object) "c = CHR ''{''" | (array) "c = CHR ''[''"
      | (string) "c = quote" | (scalar) "c \<noteq> quote" "c \<noteq> CHR ''{''" "c \<noteq> CHR ''[''"
      by blast
    then show ?thesis
    proof cases
      case object
      from parsed obtain d r0 where ws: "skip_ws cs = d # r0"
        unfolding Cons object parse_value_object by (cases "skip_ws cs") auto
      note r0 = skip_ws_Cons_length [OF ws]
      show ?thesis
      proof (cases "d = CHR ''}''")
        case True
        with parsed ws have v: "v = JObject []" and r: "r = r0"
          unfolding Cons object parse_value_object by auto
        have rest: "length r < length s"
          using r0 by (simp add: Cons r)
        have "parse_value n s = Some (v, r)" if "length s - length r \<le> n" for n
        proof -
          from that rest obtain n' where "n = Suc n'"
            by (cases n) auto
          then show ?thesis
            by (simp add: Cons object quote_def ws True v r)
        qed
        with rest show ?thesis
          by blast
      next
        case False
        with parsed ws obtain ms where m: "parse_members N (d # r0) = Some (ms, r)"
          and v: "v = JObject ms"
          unfolding Cons object parse_value_object by auto
        have rest: "length r < length s"
          using members_rest [OF m] r0 by (simp add: Cons)
        have "parse_value n s = Some (v, r)" if "length s - length r \<le> n" for n
        proof -
          from that rest obtain n' where n: "n = Suc n'"
            by (cases n) auto
          with that r0 have "length (d # r0) - length r \<le> n'"
            by (simp add: Cons)
          from members_fuel [OF m this] show ?thesis
            by (simp add: n Cons object quote_def ws False v)
        qed
        with rest show ?thesis
          by blast
      qed
    next
      case array
      from parsed obtain d r0 where ws: "skip_ws cs = d # r0"
        unfolding Cons array parse_value_array by (cases "skip_ws cs") auto
      note r0 = skip_ws_Cons_length [OF ws]
      show ?thesis
      proof (cases "d = CHR '']''")
        case True
        with parsed ws have v: "v = JArray []" and r: "r = r0"
          unfolding Cons array parse_value_array by auto
        have rest: "length r < length s"
          using r0 by (simp add: Cons r)
        have "parse_value n s = Some (v, r)" if "length s - length r \<le> n" for n
        proof -
          from that rest obtain n' where "n = Suc n'"
            by (cases n) auto
          then show ?thesis
            by (simp add: Cons array quote_def ws True v r)
        qed
        with rest show ?thesis
          by blast
      next
        case False
        with parsed ws obtain vs where e: "parse_elements N (d # r0) = Some (vs, r)"
          and v: "v = JArray vs"
          unfolding Cons array parse_value_array by auto
        have rest: "length r < length s"
          using elements_rest [OF e] r0 by (simp add: Cons)
        have "parse_value n s = Some (v, r)" if "length s - length r \<le> n" for n
        proof -
          from that rest obtain n' where n: "n = Suc n'"
            by (cases n) auto
          with that r0 have "length (d # r0) - length r \<le> n'"
            by (simp add: Cons)
          from elements_fuel [OF e this] show ?thesis
            by (simp add: n Cons array quote_def ws False v)
        qed
        with rest show ?thesis
          by blast
      qed
    next
      case string
      from parsed obtain t where t: "scan_string cs = Some (t, r)"
        unfolding Cons string parse_value_string by auto
      have rest: "length r < length s"
        using scan_string_rest [OF t] by (simp add: Cons)
      have "parse_value n s = Some (v, r)" if "length s - length r \<le> n" for n
      proof -
        from that rest obtain n' where "n = Suc n'"
          by (cases n) auto
        with parsed show ?thesis
          unfolding Cons string parse_value_string by simp
      qed
      with rest show ?thesis
        by blast
    next
      case scalar
      have rest: "length r < length s"
        using parse_value_scalar_rest [OF scalar] parsed unfolding Cons by blast
      have "parse_value n s = Some (v, r)" if "length s - length r \<le> n" for n
      proof -
        from that rest obtain n' where "n = Suc n'"
          by (cases n) auto
        with parsed show ?thesis
          unfolding Cons using parse_value_scalar [OF scalar, of n' cs N] by simp
      qed
      with rest show ?thesis
        by blast
    qed
  qed
  have elements_case: "length r < length s
      \<and> (\<forall>n. length s - length r \<le> n \<longrightarrow> parse_elements n s = Some (vs, r))"
    if parsed: "parse_elements (Suc N) s = Some (vs, r)" for s vs r
  proof -
    from parsed obtain v r1 where v: "parse_value N s = Some (v, r1)"
      by (auto split: option.splits)
    with parsed obtain c r2 where ws: "skip_ws r1 = c # r2"
      by (auto split: list.splits)
    note r1 = value_rest [OF v] and r2 = skip_ws_Cons_length [OF ws]
    from parsed v ws consider
        (last) "c = CHR '']''" "vs = [v]" "r = r2"
      | (more) vs' where "c = CHR '',''" "parse_elements N (skip_ws r2) = Some (vs', r)"
          "vs = v # vs'"
      by (auto split: if_splits)
    then show ?thesis
    proof cases
      case last
      have rest: "length r < length s"
        using r1 r2 last by simp
      have "parse_elements n s = Some (vs, r)" if "length s - length r \<le> n" for n
      proof -
        from that rest obtain n' where n: "n = Suc n'"
          by (cases n) auto
        with that r1 r2 last have "length s - length r1 \<le> n'"
          by simp
        from value_fuel [OF v this] show ?thesis
          by (simp add: n ws last)
      qed
      with rest show ?thesis
        by blast
    next
      case more
      note r = elements_rest [OF more(2)]
      have ws2: "length (skip_ws r2) \<le> length r2"
        by (rule skip_ws_length)
      have rest: "length r < length s"
        using r r1 r2 ws2 by simp
      have "parse_elements n s = Some (vs, r)" if "length s - length r \<le> n" for n
      proof -
        from that rest obtain n' where n: "n = Suc n'"
          by (cases n) auto
        with that r r1 r2 ws2 have "length s - length r1 \<le> n'"
          and "length (skip_ws r2) - length r \<le> n'"
          by simp_all
        from value_fuel [OF v this(1)] elements_fuel [OF more(2) this(2)] show ?thesis
          by (simp add: n ws more)
      qed
      with rest show ?thesis
        by blast
    qed
  qed
  have members_case: "length r < length s
      \<and> (\<forall>n. length s - length r \<le> n \<longrightarrow> parse_members n s = Some (ms, r))"
    if parsed: "parse_members (Suc N) s = Some (ms, r)" for s ms r
  proof -
    from parsed obtain cs where s: "s = quote # cs"
      by (cases s) (auto split: if_splits)
    with parsed obtain key r1 where key: "scan_string cs = Some (key, r1)"
      by (auto split: option.splits)
    with parsed s obtain r2 where colon: "skip_ws r1 = CHR '':'' # r2"
      by (auto split: list.splits if_splits)
    with parsed s key obtain v r3 where v: "parse_value N (skip_ws r2) = Some (v, r3)"
      by (auto split: option.splits)
    with parsed s key colon obtain c4 r4 where ws: "skip_ws r3 = c4 # r4"
      by (auto split: list.splits)
    note r1 = scan_string_rest [OF key] and r2 = skip_ws_Cons_length [OF colon]
      and r3 = value_rest [OF v] and r4 = skip_ws_Cons_length [OF ws]
    have ws2: "length (skip_ws r2) \<le> length r2"
      by (rule skip_ws_length)
    from parsed s key colon v ws consider
        (last) "c4 = CHR ''}''" "ms = [(key, v)]" "r = r4"
      | (more) ms' where "c4 = CHR '',''" "parse_members N (skip_ws r4) = Some (ms', r)"
          "ms = (key, v) # ms'"
      by (auto split: if_splits)
    then show ?thesis
    proof cases
      case last
      have rest: "length r < length s"
        using r1 r2 r3 r4 ws2 last by (simp add: s)
      have "parse_members n s = Some (ms, r)" if "length s - length r \<le> n" for n
      proof -
        from that rest obtain n' where n: "n = Suc n'"
          by (cases n) auto
        with that r1 r2 r3 r4 ws2 last have "length (skip_ws r2) - length r3 \<le> n'"
          by (simp add: s)
        from value_fuel [OF v this] show ?thesis
          by (simp add: n s key colon ws last)
      qed
      with rest show ?thesis
        by blast
    next
      case more
      note r = members_rest [OF more(2)]
      have ws4: "length (skip_ws r4) \<le> length r4"
        by (rule skip_ws_length)
      have rest: "length r < length s"
        using r r1 r2 r3 r4 ws2 ws4 by (simp add: s)
      have "parse_members n s = Some (ms, r)" if "length s - length r \<le> n" for n
      proof -
        from that rest obtain n' where n: "n = Suc n'"
          by (cases n) auto
        with that r r1 r2 r3 r4 ws2 ws4 have "length (skip_ws r2) - length r3 \<le> n'"
          and "length (skip_ws r4) - length r \<le> n'"
          by (simp_all add: s)
        from value_fuel [OF v this(1)] members_fuel [OF more(2) this(2)] show ?thesis
          by (simp add: n s key colon ws more)
      qed
      with rest show ?thesis
        by blast
    qed
  qed
  from value_case elements_case members_case show ?case
    by blast
qed

lemma parse_value_fuel:
  assumes "parse_value N s = Some (v, r)" and "length s \<le> n"
  shows "parse_value n s = Some (v, r)"
proof -
  have "length s - length r \<le> n"
    using assms(2) by simp
  then show ?thesis
    by (rule parse_fuel [of N, THEN conjunct1, rule_format, OF assms(1), THEN conjunct2,
          rule_format])
qed

lemma json_loads_complete:
  assumes "parse_value N (skip_ws s) = Some (v, rest)" and "skip_ws rest = []"
  shows "json_loads s = Some v"
proof -
  have "length (skip_ws s) \<le> Suc (length s)"
    using skip_ws_length [of s] by simp
  from parse_value_fuel [OF assms(1) this] assms(2) show ?thesis
    by (simp add: json_loads_def)
qed

lemma json_loads_None_iff:
  "json_loads s = None \<longleftrightarrow>
     (\<forall>N v rest. parse_value N (skip_ws s) = Some (v, rest) \<longrightarrow> skip_ws rest \<noteq> [])"
proof
  assume none: "json_loads s = None"
  show "\<forall>N v rest. parse_value N (skip_ws s) = Some (v, rest) \<longrightarrow> skip_ws rest \<noteq> []"
  proof (intro allI impI notI)
    fix N v rest
    assume "parse_value N (skip_ws s) = Some (v, rest)" and "skip_ws rest = []"
    then have "json_loads s = Some v"
      by (rule json_loads_complete)
    with none show False
      by simp
  qed
next
  assume unparsed: "\<forall>N v rest. parse_value N (skip_ws s) = Some (v, rest) \<longrightarrow> skip_ws rest \<noteq> []"
  show "json_loads s = None"
  proof (cases "parse_value (Suc (length s)) (skip_ws s)")
    case None
    then show ?thesis
      by (simp add: json_loads_def)
  next
    case (Some p)
    obtain v rest where p: "p = (v, rest)"
      by (cases p)
    with Some unparsed have "skip_ws rest \<noteq> []"
      by blast
    with Some p show ?thesis
      by (simp add: json_loads_def)
  qed
qed

section \<open>The translator\<close>

text \<open>
  The text that \<open>_clean_json_response\<close> returns is empty or starts with the opening
  brace it searched for, so what \<open>json.loads\<close> makes of it is a dictionary.
\<close>

lemma find_from_index:
  "find_from i c s = -1 \<or> (\<exists>k<length s. find_from i c s = int (i + k) \<and> s ! k = c)"
proof (induction s arbitrary: i)
  case Nil
  show ?case by simp
next
  case (Cons x xs)
  show ?case
  proof (cases "x = c")
    case True
    then show ?thesis by auto
  next
    case False
    from Cons.IH [of "Suc i"] show ?thesis
    proof
      assume "find_from (Suc i) c xs = -1"
      with False show ?thesis by simp
    next
      assume "\<exists>k<length xs. find_from (Suc i) c xs = int (Suc i + k) \<and> xs ! k = c"
      then obtain k where "k < length xs" "find_from (Suc i) c xs = int (Suc i + k)" "xs ! k = c"
        by blast
      with False have "Suc k < length (x # xs) \<and> find_from i c (x # xs) = int (i + Suc k)
          \<and> (x # xs) ! Suc k = c"
        by simp
      then show ?thesis by blast
    qed
  qed
qed

lemma slice_from_found:
  assumes "find s c \<noteq> -1"
  shows "slice s (find s c) b = [] \<or> (\<exists>r. slice s (find s c) b = c # r)"
proof -
  from assms find_from_index [of 0 c s]
  obtain k where k: "k < length s" "find s c = int k" "s ! k = c"
    by (auto simp: find_def)
  have "drop k s = c # drop (Suc k) s"
    by (metis Cons_nth_drop_Suc k(1) k(3))
  then show ?thesis
    by (cases "nat b - k") (simp_all add: slice_def k(2))
qed

lemma not_isspace_brace: "\<not> isspace (CHR ''{'')"
  by code_simp

lemma dropWhile_snoc: "\<not> P x \<Longrightarrow> dropWhile P (xs @ [x]) = dropWhile P xs @ [x]"
  by (induction xs) simp_all

lemma strip_brace: "\<exists>r'. strip (CHR ''{'' # r) = CHR ''{'' # r'"
  by (simp add: strip_def not_isspace_brace dropWhile_snoc)

lemma replace_brace:
  "replace (CHR ''{'' # r) (code_fence @ ''json'') new
     = CHR ''{'' # replace r (code_fence @ ''json'') new"
  "replace (CHR ''{'' # r) code_fence new = CHR ''{'' # replace r code_fence new"
  by (simp_all add: startswith_def code_fence_def backtick_def)

lemma clean_json_response_head:
  assumes "clean_json_response text = Inr c"
  shows "c = [] \<or> (\<exists>r. c = CHR ''{'' # r)"
proof -
  let ?s = "slice text (find text (CHR ''{'')) (rfind text (CHR ''}'') + 1)"
  from assms have found: "find text (CHR ''{'') \<noteq> -1"
    and c: "c = strip (replace (replace ?s (code_fence @ ''json'') '''') code_fence '''')"
    by (auto simp: clean_json_response_def Let_def split: if_splits)
  from slice_from_found [OF found] show ?thesis
  proof
    assume "?s = []"
    then show ?thesis
      by (simp add: c strip_def)
  next
    assume "\<exists>r. ?s = CHR ''{'' # r"
    then obtain r where "?s = CHR ''{'' # r" ..
    then have "c = strip (CHR ''{'' # replace (replace r (code_fence @ ''json'') '''') code_fence '''')"
      by (simp only: c replace_brace)
    then show ?thesis
      using strip_brace by simp
  qed
qed

lemma parse_value_brace:
  "parse_value n (CHR ''{'' # cs) = Some (v, r) \<Longrightarrow> \<exists>d. v = JObject d"
  by (cases n) (auto simp: quote_def split: list.splits if_splits)

lemma json_loads_brace:
  assumes "json_loads (CHR ''{'' # cs) = Some v"
  shows "\<exists>d. v = JObject d"
proof -
  have "skip_ws (CHR ''{'' # cs) = CHR ''{'' # cs"
    by (simp add: skip_ws_def json_ws_def)
  with assms obtain r where "parse_value (Suc (length (CHR ''{'' # cs))) (CHR ''{'' # cs) = Some (v, r)"
    by (auto simp: json_loads_def split: option.splits if_splits)
  then show ?thesis
    by (rule parse_value_brace)
qed

lemma json_loads_Nil: "json_loads [] = None"
  by (simp add: json_loads_def skip_ws_def)

lemma json_loads_cleaned:
  assumes "clean_json_response text = Inr c" and "json_loads c = Some v"
  shows "\<exists>d. v = JObject d"
  using clean_json_response_head [OF assms(1)] assms(2) json_loads_brace json_loads_Nil
  by auto

lemma find_Nil: "find [] c = -1"
  by (simp add: find_def)

lemma human_query_to_sql_result:
  "model srv = Some g \<Longrightarrow> g tr (sql_prompt s q) = Returns text \<Longrightarrow>
   fst (human_query_to_sql srv tr q s) =
     (case sql_result_of_response text q of
        Inr r \<Rightarrow> Inr r
      | Inl e \<Rightarrow> Inl (human_query_to_sql_except e))"
  by (simp add: human_query_to_sql_def Let_def split: sum.splits)

lemma human_query_to_sql_except_prefixed:
  "\<exists>p. human_query_to_sql_except e = PyExn Exception (Prefixed p (str_of e))
      \<and> (p = ''Error in Gemini response format: '' \<or> p = ''Error processing query with Gemini: '')"
  by (simp add: human_query_to_sql_except_def isinstance_Exception)

lemma clean_json_response_Inl:
  "isl (clean_json_response text)
     \<longleftrightarrow> find text (CHR ''{'') = -1 \<or> rfind text (CHR ''}'') = -1"
  by (simp add: clean_json_response_def Let_def)

lemma sql_result_of_response_Inr:
  "sql_result_of_response text q = Inr r \<longleftrightarrow>
     text \<noteq> [] \<and>
     (\<exists>c d. clean_json_response text = Inr c \<and> json_loads c = Some (JObject d)
        \<and> dict_has_key d ''sql_query''
        \<and> new_SQLQueryResult (dict_get d ''sql_query'' (JString ''''))
             (dict_get d ''original_query'' (JString q))
             (dict_get d ''confidence'' (JFloat (Finite 0.5))) = Some r)"
  by (auto simp: sql_result_of_response_def split: sum.splits option.splits json.splits)

lemma sql_result_of_response_fails_iff:
  "isl (sql_result_of_response text q) \<longleftrightarrow>
     (find text (CHR ''{'') = -1 \<or> rfind text (CHR ''}'') = -1)
   \<or> (\<exists>c. clean_json_response text = Inr c \<and> json_loads c = None)
   \<or> (\<exists>c d. clean_json_response text = Inr c \<and> json_loads c = Some (JObject d)
         \<and> \<not> dict_has_key d ''sql_query'')
   \<or> (\<exists>c d. clean_json_response text = Inr c \<and> json_loads c = Some (JObject d)
         \<and> dict_has_key d ''sql_query''
         \<and> new_SQLQueryResult (dict_get d ''sql_query'' (JString ''''))
              (dict_get d ''original_query'' (JString q))
              (dict_get d ''confidence'' (JFloat (Finite 0.5))) = None)"
proof (cases "clean_json_response text")
  case (Inl e)
  then have no_pair: "find text (CHR ''{'') = -1 \<or> rfind text (CHR ''}'') = -1"
    using clean_json_response_Inl [of "text"] by simp
  from Inl have "isl (sql_result_of_response text q)"
    by (simp add: sql_result_of_response_def)
  with no_pair show ?thesis
    by simp
next
  case cleaned: (Inr c)
  then have pair: "\<not> (find text (CHR ''{'') = -1 \<or> rfind text (CHR ''}'') = -1)"
    using clean_json_response_Inl [of "text"] by simp
  then have nonempty: "text \<noteq> []"
    using find_Nil by auto
  show ?thesis
  proof (cases "json_loads c")
    case None
    with cleaned nonempty show ?thesis
      by (simp add: sql_result_of_response_def)
  next
    case (Some v)
    with cleaned obtain d where v: "v = JObject d"
      using json_loads_cleaned by blast
    show ?thesis
    proof (cases "dict_has_key d ''sql_query''")
      case False
      with cleaned nonempty Some v show ?thesis
        by (simp add: sql_result_of_response_def)
    next
      case True
      with cleaned nonempty Some v pair show ?thesis
        by (simp add: sql_result_of_response_def split: option.splits)
    qed
  qed
qed

lemma dict_get_default: "\<not> dict_has_key d k \<Longrightarrow> dict_get d k v = v"
  by (simp add: dict_get_def dict_has_key_def map_of_eq_None_iff [THEN iffD2])

lemma new_SQLQueryResult_fields:
  assumes "new_SQLQueryResult s (JString q) c = Some r"
  shows "original_query r = q"
  using assms by (auto simp: new_SQLQueryResult_def validate_str_def split: option.splits)

lemma new_SQLQueryResult_confidence:
  assumes "new_SQLQueryResult s o' (JFloat x) = Some r"
  shows "confidence r = Some x"
  using assms
  by (auto simp: new_SQLQueryResult_def validate_optional_float_def split: option.splits)

lemma fenced_reply_nonempty: "fenced_reply \<noteq> []"
  by (simp add: fenced_reply_def)

lemma fenced_reply_cleaned:
  "clean_json_response fenced_reply =
     Inr (''{'' @ [quote] @ ''sql_query'' @ [quote] @ '':'' @ [quote] @ ''SELECT * FROM users''
            @ [quote] @ ''}'')"
  by code_simp

lemma fenced_reply_loads:
  "json_loads (''{'' @ [quote] @ ''sql_query'' @ [quote] @ '':'' @ [quote] @ ''SELECT * FROM users'' @ [quote] @ ''}'')
     = Some (JObject [(''sql_query'', JString ''SELECT * FROM users'')])"
  by code_simp

lemma sql_result_of_fenced_reply:
  "sql_result_of_response fenced_reply q =
     Inr \<lparr>sql_query = ''SELECT * FROM users'', original_query = q,
          confidence = Some (Finite 0.5)\<rparr>"
proof -
  have "new_SQLQueryResult
          (dict_get [(''sql_query'', JString ''SELECT * FROM users'')] ''sql_query'' (JString ''''))
          (dict_get [(''sql_query'', JString ''SELECT * FROM users'')] ''original_query'' (JString q))
          (dict_get [(''sql_query'', JString ''SELECT * FROM users'')] ''confidence''
             (JFloat (Finite 0.5)))
        = Some \<lparr>sql_query = ''SELECT * FROM users'', original_query = q,
                 confidence = Some (Finite 0.5)\<rparr>"
    by (simp add: dict_get_def new_SQLQueryResult_def validate_str_def
        validate_optional_float_def)
  moreover have "dict_has_key [(''sql_query'', JString ''SELECT * FROM users'')] ''sql_query''"
    by (simp add: dict_has_key_def)
  ultimately show ?thesis
    unfolding sql_result_of_response_Inr
    using fenced_reply_nonempty fenced_reply_cleaned fenced_reply_loads
    by blast
qed

text \<open>
  Claim C4, as amended. When the model returns a text, \<open>human_query_to_sql\<close> raises
  exactly when the text has no opening or no closing brace, or the cleaned text between
  the first opening and the last closing brace is not valid JSON, or the parsed object
  has no key \<open>sql_query\<close>, or the values of the object do not fit the fields of
  \<open>SQLQueryResult\<close>; and what it raises is a plain \<open>Exception\<close>.
\<close>

theorem human_query_to_sql_fails_iff:
  fixes srv :: "'row services"
  assumes "model srv = Some generate_content"
    and "generate_content tr (sql_prompt database_schema human_query) = Returns response_text"
  shows "(isl (fst (human_query_to_sql srv tr human_query database_schema)) \<longleftrightarrow>
            (find response_text (CHR ''{'') = -1 \<or> rfind response_text (CHR ''}'') = -1)
          \<or> (\<exists>c. clean_json_response response_text = Inr c \<and> json_loads c = None)
          \<or> (\<exists>c d. clean_json_response response_text = Inr c
                \<and> json_loads c = Some (JObject d) \<and> \<not> dict_has_key d ''sql_query'')
          \<or> (\<exists>c d. clean_json_response response_text = Inr c
                \<and> json_loads c = Some (JObject d) \<and> dict_has_key d ''sql_query''
                \<and> new_SQLQueryResult (dict_get d ''sql_query'' (JString ''''))
                     (dict_get d ''original_query'' (JString human_query))
                     (dict_get d ''confidence'' (JFloat (Finite 0.5))) = None))
       \<and> (\<forall>e. fst (human_query_to_sql srv tr human_query database_schema) = Inl e \<longrightarrow>
             (\<exists>m. e = PyExn Exception m))"
proof (intro conjI allI impI)
  have "isl (fst (human_query_to_sql srv tr human_query database_schema))
          \<longleftrightarrow> isl (sql_result_of_response response_text human_query)"
    unfolding human_query_to_sql_result [OF assms]
    by (cases "sql_result_of_response response_text human_query") simp_all
  then show "isl (fst (human_query_to_sql srv tr human_query database_schema)) \<longleftrightarrow>
            (find response_text (CHR ''{'') = -1 \<or> rfind response_text (CHR ''}'') = -1)
          \<or> (\<exists>c. clean_json_response response_text = Inr c \<and> json_loads c = None)
          \<or> (\<exists>c d. clean_json_response response_text = Inr c
                \<and> json_loads c = Some (JObject d) \<and> \<not> dict_has_key d ''sql_query'')
          \<or> (\<exists>c d. clean_json_response response_text = Inr c
                \<and> json_loads c = Some (JObject d) \<and> dict_has_key d ''sql_query''
                \<and> new_SQLQueryResult (dict_get d ''sql_query'' (JString ''''))
                     (dict_get d ''original_query'' (JString human_query))
                     (dict_get d ''confidence'' (JFloat (Finite 0.5))) = None)"
    by (simp only: sql_result_of_response_fails_iff)
next
  fix e
  assume "fst (human_query_to_sql srv tr human_query database_schema) = Inl e"
  then obtain e0 where "e = human_query_to_sql_except e0"
    unfolding human_query_to_sql_result [OF assms]
    by (cases "sql_result_of_response response_text human_query") auto
  then show "\<exists>m. e = PyExn Exception m"
    using human_query_to_sql_except_prefixed [of e0] by auto
qed

text \<open>An instance: the reply \<open>{"sql_query": null}\<close> makes the translator raise.\<close>

theorem human_query_to_sql_fails_iff_witness:
  "isl (fst (human_query_to_sql (stub_services null_reply '''' []) [] ''show all users''
              ''schema''))"
proof -
  have model: "model (stub_services null_reply '''' []) = Some (scripted_model null_reply '''')"
    by (simp add: stub_services_def)
  have reply: "scripted_model null_reply '''' [] (sql_prompt ''schema'' ''show all users'')
                 = Returns null_reply"
    by (simp add: scripted_model_def)
  have cleaned: "clean_json_response null_reply = Inr null_reply"
    by code_simp
  have loaded: "json_loads null_reply = Some (JObject [(''sql_query'', JNull)])"
    by code_simp
  have key: "dict_has_key [(''sql_query'', JNull)] ''sql_query''"
    by (simp add: dict_has_key_def)
  have "new_SQLQueryResult (dict_get [(''sql_query'', JNull)] ''sql_query'' (JString ''''))
          (dict_get [(''sql_query'', JNull)] ''original_query'' (JString ''show all users''))
          (dict_get [(''sql_query'', JNull)] ''confidence'' (JFloat (Finite 0.5))) = None"
    by (simp add: dict_get_def new_SQLQueryResult_def validate_str_def)
  with cleaned loaded key show ?thesis
    unfolding human_query_to_sql_fails_iff [OF model reply, THEN conjunct1]
    by blast
qed

text \<open>
  The reply \<open>{"sql_query": null}\<close> has both braces, is valid JSON and has the key
  \<open>sql_query\<close>, and the translator raises all the same.
\<close>

theorem null_sql_query_counterexample:
  "isl (fst (human_query_to_sql (stub_services null_reply '''' []) [] ''show all users''
              ''schema''))
   \<and> find null_reply (CHR ''{'') = 0 \<and> rfind null_reply (CHR ''}'') = 18
   \<and> clean_json_response null_reply = Inr null_reply
   \<and> json_loads null_reply = Some (JObject [(''sql_query'', JNull)])
   \<and> dict_has_key [(''sql_query'', JNull)] ''sql_query''"
  by code_simp

text \<open>
  Claim C5. For every question, the translator turns the fenced reply into the
  candidate with the statement \<open>SELECT * FROM users\<close>, the question as
  \<open>original_query\<close> and confidence 0.5. In general, whenever it returns a candidate,
  \<open>original_query\<close> is the question if the parsed object has no such key and
  \<open>confidence\<close> is 0.5 if the parsed object has no such key.
\<close>

theorem human_query_to_sql_defaults:
  fixes srv :: "'row services"
  assumes "model srv = Some generate_content"
  shows "(generate_content tr (sql_prompt database_schema human_query) = Returns fenced_reply \<longrightarrow>
            fst (human_query_to_sql srv tr human_query database_schema) =
              Inr \<lparr>sql_query = ''SELECT * FROM users'', original_query = human_query,
                   confidence = Some (Finite 0.5)\<rparr>)
       \<and> (\<forall>response_text c d r.
             generate_content tr (sql_prompt database_schema human_query) = Returns response_text
             \<and> clean_json_response response_text = Inr c \<and> json_loads c = Some (JObject d)
             \<and> fst (human_query_to_sql srv tr human_query database_schema) = Inr r \<longrightarrow>
               (\<not> dict_has_key d ''original_query'' \<longrightarrow> original_query r = human_query)
             \<and> (\<not> dict_has_key d ''confidence'' \<longrightarrow> confidence r = Some (Finite 0.5)))"
proof (intro conjI allI impI; (elim conjE)?)
  assume "generate_content tr (sql_prompt database_schema human_query) = Returns fenced_reply"
  then show "fst (human_query_to_sql srv tr human_query database_schema) =
              Inr \<lparr>sql_query = ''SELECT * FROM users'', original_query = human_query,
                   confidence = Some (Finite 0.5)\<rparr>"
    by (simp add: human_query_to_sql_result [OF assms] sql_result_of_fenced_reply)
next
  fix response_text c d r
  assume reply: "generate_content tr (sql_prompt database_schema human_query) = Returns response_text"
    and cleaned: "clean_json_response response_text = Inr c"
    and loaded: "json_loads c = Some (JObject d)"
    and result: "fst (human_query_to_sql srv tr human_query database_schema) = Inr r"
  from result have "sql_result_of_response response_text human_query = Inr r"
    unfolding human_query_to_sql_result [OF assms reply]
    by (cases "sql_result_of_response response_text human_query") simp_all
  with cleaned loaded
  have built: "new_SQLQueryResult (dict_get d ''sql_query'' (JString ''''))
             (dict_get d ''original_query'' (JString human_query))
             (dict_get d ''confidence'' (JFloat (Finite 0.5))) = Some r"
    by (simp add: sql_result_of_response_Inr)
  {
    assume "\<not> dict_has_key d ''original_query''"
    with built show "original_query r = human_query"
      by (simp add: dict_get_default new_SQLQueryResult_fields)
  }
  {
    assume "\<not> dict_has_key d ''confidence''"
    with built show "confidence r = Some (Finite 0.5)"
      by (simp add: dict_get_default new_SQLQueryResult_confidence)
  }
qed

text \<open>An instance: the fenced reply to the question \<open>show all users\<close>.\<close>

theorem human_query_to_sql_defaults_witness:
  "fst (human_query_to_sql (stub_services fenced_reply '''' []) [] ''show all users'' ''schema'')
     = Inr \<lparr>sql_query = ''SELECT * FROM users'', original_query = ''show all users'',
            confidence = Some (Finite 0.5)\<rparr>"
proof -
  have model: "model (stub_services fenced_reply '''' []) = Some (scripted_model fenced_reply '''')"
    by (simp add: stub_services_def)
  have reply: "scripted_model fenced_reply '''' [] (sql_prompt ''schema'' ''show all users'')
                 = Returns fenced_reply"
    by (simp add: scripted_model_def)
  from reply show ?thesis
    by (rule human_query_to_sql_defaults [OF model, THEN conjunct1, THEN mp])
qed

section \<open>The pipeline\<close>

text \<open>
  Claim C2. In every run in which the services are configured, the translator returns a
  candidate and the safety gate rejects its SQL, the pipeline returns the
  security-rejection error response, and the run has called the model once, for the
  translation, and the executor not at all.
\<close>

theorem unsafe_sql_never_executed:
  fixes srv :: "'row services"
  assumes "verify_services_configured srv = Inr ()"
    and "human_query_to_sql srv tr human_query (DATABASE_SCHEMA srv) = (Inr sql_result, tr1)"
    and "\<not> validate_query_safety (sql_query sql_result)"
  shows "process_human_query srv tr human_query =
           (Inr [(''error'', Msg (Text ''SQL query not allowed for security reasons'')),
                 (''details'', Str ''Only SELECT queries are allowed''),
                 (''timestamp'', Datetime (time_time srv tr1))],
            tr @ [GenerateContent (sql_prompt (DATABASE_SCHEMA srv) human_query)])
       \<and> (\<forall>sql. ExecuteDynamicQuery sql \<notin>
             set (drop (length tr) (snd (process_human_query srv tr human_query))))"
proof -
  from assms(1) obtain g where g: "model srv = Some g"
    by (auto simp: verify_services_configured_Inr)
  have tr1: "tr1 = tr @ [GenerateContent (sql_prompt (DATABASE_SCHEMA srv) human_query)]"
    using human_query_to_sql_trace [OF g, of tr human_query "DATABASE_SCHEMA srv"] assms(2)
    by simp
  have "process_human_query srv tr human_query =
          (Inr (create_error_response srv tr1
                  (Text ''SQL query not allowed for security reasons'')
                  (Some ''Only SELECT queries are allowed'')), tr1)"
    using assms by (simp add: process_human_query_def process_try_def)
  then show ?thesis
    by (simp add: create_error_response_def tr1)
qed

text \<open>
  An instance: the model answers with \<open>DROP TABLE users\<close>; the run ends after the one
  call of the model.
\<close>

theorem unsafe_sql_never_executed_witness:
  "\<not> validate_query_safety ''DROP TABLE users''
   \<and> process_human_query (stub_services (sql_reply ''DROP TABLE users'') ''unused'' [2, 3, 5]) []
         ''show all users'' =
       (Inr [(''error'', Msg (Text ''SQL query not allowed for security reasons'')),
             (''details'', Str ''Only SELECT queries are allowed''),
             (''timestamp'', Datetime 1)],
        [GenerateContent (sql_prompt
           (DATABASE_SCHEMA (stub_services (sql_reply ''DROP TABLE users'') ''unused'' [2, 3, 5]))
           ''show all users'')])"
proof -
  let ?srv = "stub_services (sql_reply ''DROP TABLE users'') ''unused'' [2, 3, 5]"
  let ?r = "human_query_to_sql ?srv [] ''show all users'' (DATABASE_SCHEMA ?srv)"
  have configured: "verify_services_configured ?srv = Inr ()"
    by (simp add: verify_services_configured_def stub_services_def)
  have "fst ?r = Inr \<lparr>sql_query = ''DROP TABLE users'', original_query = ''show all users'',
                       confidence = Some (Finite (1 / 2))\<rparr>"
    by code_simp
  then have translated: "?r = (Inr \<lparr>sql_query = ''DROP TABLE users'',
      original_query = ''show all users'', confidence = Some (Finite (1 / 2))\<rparr>, snd ?r)"
    by (simp add: prod_eq_iff)
  have unsafe: "\<not> validate_query_safety (sql_query \<lparr>sql_query = ''DROP TABLE users'',
      original_query = ''show all users'', confidence = Some (Finite (1 / 2))\<rparr>)"
    by code_simp
  have "snd ?r = [GenerateContent (sql_prompt (DATABASE_SCHEMA ?srv) ''show all users'')]"
    using human_query_to_sql_trace [of ?srv "scripted_model (sql_reply ''DROP TABLE users'') ''unused''"
        "[]" "''show all users''" "DATABASE_SCHEMA ?srv"]
    by (simp add: stub_services_def)
  then have clock: "time_time ?srv (snd ?r) = 1"
    by (simp add: stub_services_def)
  from unsafe have "\<not> validate_query_safety ''DROP TABLE users''"
    by simp
  then show ?thesis
    using unsafe_sql_never_executed [OF configured translated unsafe] clock by simp
qed

text \<open>
  The success response. In every run in which translation succeeds, the gate accepts,
  execution returns rows and composition returns an answer, the \<open>sql_query\<close> of the
  response is the very string the translator produced, which is also the string that
  was executed, and \<open>execution_time\<close> is the reading of \<open>time.time()\<close> at the end
  minus its reading at the start.
\<close>

lemma pipeline_success_outcome:
  fixes srv :: "'row services"
  assumes "verify_services_configured srv = Inr ()"
    and "human_query_to_sql srv tr human_query (DATABASE_SCHEMA srv) = (Inr sql_result, tr1)"
    and "validate_query_safety (sql_query sql_result)"
    and "execute_query srv tr1 (sql_query sql_result) = (Inr query_result, tr2)"
    and "build_answer srv tr2 query_result human_query = (Inr natural_answer, tr3)"
  shows "process_human_query srv tr human_query =
           (Inr [(''answer'', Str natural_answer),
                 (''sql_query'', Str (sql_query sql_result)),
                 (''execution_time'', Float (time_time srv tr3 - time_time srv tr))], tr3)
       \<and> tr2 = tr1 @ [ExecuteDynamicQuery (sql_query sql_result)]"
proof -
  from assms(1) obtain client where client: "supabase srv = Some client"
    by (auto simp: verify_services_configured_Inr)
  have "tr2 = tr1 @ [ExecuteDynamicQuery (sql_query sql_result)]"
    using execute_query_trace [OF client, of tr1 "sql_query sql_result"] assms(4) by simp
  moreover have "process_human_query srv tr human_query =
      (Inr (HumanQueryResponse_dict natural_answer (sql_query sql_result)
              (time_time srv tr3 - time_time srv tr)), tr3)"
    using assms by (simp add: process_human_query_def process_try_def Let_def)
  ultimately show ?thesis
    by (simp add: HumanQueryResponse_dict_def)
qed

text \<open>
  An instance: the fenced reply, three rows and a narration, with a clock that advances
  by one second at each of the three collaborator calls.
\<close>

lemma pipeline_success_example:
  "validate_query_safety ''SELECT * FROM users''
   \<and> fst (process_human_query (stub_services fenced_reply ''  There are 3 users. '' [2, 3, 5]) []
         ''show all users'') =
       Inr [(''answer'', Str ''There are 3 users.''),
            (''sql_query'', Str ''SELECT * FROM users''),
            (''execution_time'', Float 3)]"
proof -
  let ?srv = "stub_services fenced_reply ''  There are 3 users. '' [2, 3, 5]"
  let ?cand = "\<lparr>sql_query = ''SELECT * FROM users'', original_query = ''show all users'',
                 confidence = Some (Finite (1 / 2))\<rparr>"
  let ?r1 = "human_query_to_sql ?srv [] ''show all users'' (DATABASE_SCHEMA ?srv)"
  let ?r2 = "execute_query ?srv (snd ?r1) (sql_query ?cand)"
  let ?r3 = "build_answer ?srv (snd ?r2) [2, 3, 5] ''show all users''"
  have model: "model ?srv = Some (scripted_model fenced_reply ''  There are 3 users. '')"
    and client: "supabase ?srv = Some (fixed_rows_client [2, 3, 5])"
    by (simp_all add: stub_services_def)
  have configured: "verify_services_configured ?srv = Inr ()"
    by (simp add: verify_services_configured_def stub_services_def)
  have "fst ?r1 = Inr ?cand"
    by code_simp
  then have translated: "?r1 = (Inr ?cand, snd ?r1)"
    by (simp add: prod_eq_iff)
  have safe: "validate_query_safety (sql_query ?cand)"
    by code_simp
  have "fst ?r2 = Inr [2, 3, 5]"
    by (simp add: execute_query_def client fixed_rows_client_def)
  then have executed: "?r2 = (Inr [2, 3, 5], snd ?r2)"
    by (simp add: prod_eq_iff)
  have tr1: "snd ?r1 = [GenerateContent (sql_prompt (DATABASE_SCHEMA ?srv) ''show all users'')]"
    using human_query_to_sql_trace [OF model, of "[]"] by simp
  have tr2: "length (snd ?r2) = 2"
    using execute_query_trace [OF client, of "snd ?r1"] tr1 by simp
  have stripped: "strip ''  There are 3 users. '' = ''There are 3 users.''"
    by code_simp
  have "snd ?r2 \<noteq> []"
    using tr2 by auto
  then have "fst ?r3 = Inr ''There are 3 users.''"
    by (simp add: build_answer_def model scripted_model_def stripped Let_def)
  then have composed: "?r3 = (Inr ''There are 3 users.'', snd ?r3)"
    by (simp add: prod_eq_iff)
  have "length (snd ?r3) = 3"
    using build_answer_trace [OF model, of "snd ?r2"] tr2 by simp
  then have clock: "time_time ?srv (snd ?r3) - time_time ?srv [] = 3"
    by (simp add: stub_services_def)
  from safe have "validate_query_safety ''SELECT * FROM users''"
    by simp
  then show ?thesis
    using pipeline_success_outcome [OF configured translated safe executed composed] clock
    by simp
qed

text \<open>
  Claim C7. The \<open>sql_query\<close> of the success response is the translator's string, as
  the claim says, but \<open>execution_time\<close> is not always non-negative: it is a difference
  of two readings of the wall clock \<open>time.time()\<close>, which the system may set back
  between them. In the run above with a clock that reads 100 at the start and 97 at the
  end, the response is a success and its \<open>execution_time\<close> is \<open>-3\<close>.
\<close>

theorem execution_time_negative_after_clock_step:
  "fst (process_human_query
          (backwards_clock (stub_services fenced_reply ''  There are 3 users. '' [2, 3, 5])) []
          ''show all users'') =
     Inr [(''answer'', Str ''There are 3 users.''), (''sql_query'', Str ''SELECT * FROM users''),
          (''execution_time'', Float (- 3))]"
  by code_simp








text \<open>
  The pipeline returns a dictionary in every case, of the success shape exactly when
  the run completes.
\<close>

lemma process_human_query_returns:
  fixes srv :: "'row services"
  shows "\<exists>d tr1. process_human_query srv tr human_query = (Inr d, tr1)
      \<and> (if run_completes srv tr human_query
         then map fst d = [''answer'', ''sql_query'', ''execution_time'']
         else map fst d = [''error'', ''details'', ''timestamp''])"
proof (cases "verify_services_configured srv")
  case (Inl e)
  then show ?thesis
    using process_except_returns [of srv tr e]
    by (auto simp: process_human_query_def process_try_def run_completes_def)
next
  case verified: (Inr u)
  obtain translated tr1
    where translate: "human_query_to_sql srv tr human_query (DATABASE_SCHEMA srv) = (translated, tr1)"
    by (cases "human_query_to_sql srv tr human_query (DATABASE_SCHEMA srv)")
  show ?thesis
  proof (cases translated)
    case (Inl e)
    with verified translate show ?thesis
      using process_except_returns [of srv tr1 e]
      by (auto simp: process_human_query_def process_try_def run_completes_def)
  next
    case translated: (Inr sql_result)
    show ?thesis
    proof (cases "validate_query_safety (sql_query sql_result)")
      case False
      with verified translate translated show ?thesis
        by (simp add: process_human_query_def process_try_def run_completes_def
            create_error_response_def)
    next
      case safe: True
      obtain executed tr2
        where execute: "execute_query srv tr1 (sql_query sql_result) = (executed, tr2)"
        by (cases "execute_query srv tr1 (sql_query sql_result)")
      show ?thesis
      proof (cases executed)
        case (Inl e)
        with verified translate translated safe execute show ?thesis
          using process_except_returns [of srv tr2 e]
          by (auto simp: process_human_query_def process_try_def run_completes_def)
      next
        case executed: (Inr query_result)
        obtain composed tr3
          where compose: "build_answer srv tr2 query_result human_query = (composed, tr3)"
          by (cases "build_answer srv tr2 query_result human_query")
        show ?thesis
        proof (cases composed)
          case (Inl e)
          with verified translate translated safe execute executed compose show ?thesis
            using process_except_returns [of srv tr3 e]
            by (auto simp: process_human_query_def process_try_def run_completes_def)
        next
          case (Inr natural_answer)
          with verified translate translated safe execute executed compose show ?thesis
            by (simp add: process_human_query_def process_try_def run_completes_def
                HumanQueryResponse_dict_def)
        qed
      qed
    qed
  qed
qed

text \<open>
  Claim C10. Whatever the query and the collaborators do, \<open>process_human_query\<close> raises
  nothing: it returns a dictionary whose keys are exactly \<open>answer\<close>, \<open>sql_query\<close>,
  \<open>execution_time\<close>, or exactly \<open>error\<close>, \<open>details\<close>, \<open>timestamp\<close>, and the key \<open>error\<close>
  is present if and only if the run failed.
\<close>

theorem process_human_query_never_raises:
  fixes srv :: "'row services"
  shows "\<exists>d tr1. process_human_query srv tr human_query = (Inr d, tr1)
      \<and> (map fst d = [''answer'', ''sql_query'', ''execution_time'']
           \<or> map fst d = [''error'', ''details'', ''timestamp''])
      \<and> (dict_has_key d ''error'' \<longleftrightarrow> \<not> run_completes srv tr human_query)"
proof -
  obtain d tr1 where d: "process_human_query srv tr human_query = (Inr d, tr1)"
    and keys: "if run_completes srv tr human_query
         then map fst d = [''answer'', ''sql_query'', ''execution_time'']
         else map fst d = [''error'', ''details'', ''timestamp'']"
    using process_human_query_returns [of srv tr human_query] by blast
  from keys have "dict_has_key d ''error'' \<longleftrightarrow> \<not> run_completes srv tr human_query"
    by (cases "run_completes srv tr human_query") (simp_all add: dict_has_key_keys)
  with d keys show ?thesis
    by (auto split: if_splits)
qed

text \<open>
  An instance: the model answers without any JSON, the translator raises, and the
  pipeline returns the error dictionary.
\<close>

theorem process_human_query_never_raises_witness:
  "\<not> run_completes (stub_services ''I cannot help'' '''' []) [] ''show all users''
   \<and> (\<exists>d tr1. process_human_query (stub_services ''I cannot help'' '''' []) [] ''show all users''
                  = (Inr d, tr1)
        \<and> map fst d = [''error'', ''details'', ''timestamp''] \<and> dict_has_key d ''error'')"
proof -
  have failed: "\<not> run_completes (stub_services ''I cannot help'' '''' []) [] ''show all users''"
    by code_simp
  obtain d tr1
    where d: "process_human_query (stub_services ''I cannot help'' '''' []) [] ''show all users''
             = (Inr d, tr1)"
      and keys: "map fst d = [''answer'', ''sql_query'', ''execution_time'']
           \<or> map fst d = [''error'', ''details'', ''timestamp'']"
      and err: "dict_has_key d ''error'' \<longleftrightarrow>
           \<not> run_completes (stub_services ''I cannot help'' '''' []) [] ''show all users''"
    using process_human_query_never_raises
      [of "stub_services ''I cannot help'' '''' []" "[]" "''show all users''"]
    by (elim exE conjE) (rule that)
  from err failed have has: "dict_has_key d ''error''"
    by simp
  have "map fst d \<noteq> [''answer'', ''sql_query'', ''execution_time'']"
  proof
    assume success: "map fst d = [''answer'', ''sql_query'', ''execution_time'']"
    from has show False
      unfolding dict_has_key_keys [OF success] by simp
  qed
  with keys have "map fst d = [''error'', ''details'', ''timestamp'']"
    by simp
  with failed d has show ?thesis
    by (intro conjI exI)
qed

section \<open>The HTTP query endpoint\<close>

text \<open>
  Claim C3, as amended. The endpoint answers an empty (after trimming) query with 400
  without calling the pipeline; otherwise it answers 400, with the pipeline's error
  message as detail, whenever the pipeline returns an error dictionary, whatever the
  kind of the error, and 200 with the dictionary otherwise. No request is answered by
  the 500 branch of the handler.
\<close>

theorem route_maps_every_error_to_400:
  fixes srv :: "'row services"
  shows "(strip human_query = [] \<longrightarrow>
            route_process_human_query srv tr human_query
              = (HTTPException 400 (Str ''Query cannot be empty''), tr))
       \<and> (strip human_query \<noteq> [] \<longrightarrow>
            (\<exists>d tr1. process_human_query srv tr human_query = (Inr d, tr1)
               \<and> route_process_human_query srv tr human_query
                   = (if dict_has_key d ''error''
                      then HTTPException 400 (dict_item d ''error'') else Response d, tr1)))
       \<and> (\<forall>code detail. fst (route_process_human_query srv tr human_query)
                            = HTTPException code detail \<longrightarrow> code = 400)"
proof -
  obtain d tr1 where d: "process_human_query srv tr human_query = (Inr d, tr1)"
    using process_human_query_returns [of srv tr human_query] by blast
  then show ?thesis
    by (simp add: route_process_human_query_def)
qed

text \<open>
  Two instances: a query of spaces, and a run with no model set, whose configuration
  error is answered with 400.
\<close>

theorem route_maps_every_error_to_400_witness:
  "strip ''   '' = []
   \<and> route_process_human_query (stub_services '''' '''' []) [] ''   ''
       = (HTTPException 400 (Str ''Query cannot be empty''), [])
   \<and> strip ''show all users'' \<noteq> []
   \<and> route_process_human_query ((stub_services '''' '''' [])\<lparr>model := None\<rparr>) [] ''show all users''
       = (HTTPException 400 (Msg (Text ''Service not configured correctly'')), [])"
proof -
  let ?unset = "(stub_services '''' '''' [])\<lparr>model := None\<rparr>"
  have empty: "strip ''   '' = []"
    by code_simp
  then have rejected: "route_process_human_query (stub_services '''' '''' []) [] ''   ''
       = (HTTPException 400 (Str ''Query cannot be empty''), [])"
    by (rule route_maps_every_error_to_400 [THEN conjunct1, THEN mp])
  have nonempty: "strip ''show all users'' \<noteq> []"
    by code_simp
  have run: "process_human_query ?unset [] ''show all users'' =
      (Inr [(''error'', Msg (Text ''Service not configured correctly'')),
            (''details'', Str ''Verify your Supabase and Gemini configuration in the .env file''),
            (''timestamp'', Datetime 0)], [])"
    by code_simp
  from route_maps_every_error_to_400 [of "''show all users''" ?unset "[]",
      THEN conjunct2, THEN conjunct1, THEN mp, OF nonempty]
  obtain d tr1 where "process_human_query ?unset [] ''show all users'' = (Inr d, tr1)"
    and "route_process_human_query ?unset [] ''show all users''
           = (if dict_has_key d ''error''
              then HTTPException 400 (dict_item d ''error'') else Response d, tr1)"
    by (elim exE conjE) (rule that)
  with run have "route_process_human_query ?unset [] ''show all users''
       = (HTTPException 400 (Msg (Text ''Service not configured correctly'')), [])"
    by (simp add: dict_has_key_def dict_item_def)
  with empty rejected nonempty show ?thesis
    by (intro conjI)
qed

text \<open>
  A translation failure: the model answers without any JSON, \<open>human_query_to_sql\<close>
  raises, and the endpoint answers 400, not 500.
\<close>

theorem translation_failure_counterexample:
  "isl (fst (human_query_to_sql (stub_services ''I cannot help'' '''' []) [] ''show all users''
              (DATABASE_SCHEMA (stub_services ''I cannot help'' '''' []))))
   \<and> fst (route_process_human_query (stub_services ''I cannot help'' '''' []) []
            ''show all users'')
       = HTTPException 400 (Msg (Prefixed ''Error processing query: ''
           (Prefixed ''Error processing query with Gemini: ''
             (Text ''No valid JSON found in response''))))"
  by code_simp

end
